theory Spec2Isabelle
  imports Complex_Main
begin

section \<open>Python strings\<close>

text \<open>
  A Python \<open>str\<close> is a sequence of Unicode code points; it is modelled as a list of
  natural numbers, one per code point, so that \<open>length\<close> counts what \<open>len\<close> counts.
  An ASCII literal is written \<open>py ''...''\<close>.
\<close>

type_synonym pystr = "nat list"

abbreviation py :: "string \<Rightarrow> pystr" where
  "py s \<equiv> map of_char s"

text \<open>
  The code points for which \<open>str.isspace\<close> holds. The same set is what \<open>\s\<close> matches in
  a \<open>str\<close> pattern and what \<open>str.strip()\<close> and \<open>str.split()\<close> treat as whitespace.
\<close>

definition isspace :: "nat \<Rightarrow> bool" where
  "isspace c \<longleftrightarrow>
     (9 \<le> c \<and> c \<le> 13) \<or> (28 \<le> c \<and> c \<le> 32) \<or> c = 133 \<or> c = 160 \<or> c = 5760
     \<or> (8192 \<le> c \<and> c \<le> 8202) \<or> c = 8232 \<or> c = 8233 \<or> c = 8239 \<or> c = 8287
     \<or> c = 12288"

text \<open>\<open>s.strip()\<close>: leading and trailing whitespace removed.\<close>

definition strip :: "pystr \<Rightarrow> pystr" where
  "strip s = rev (dropWhile isspace (rev (dropWhile isspace s)))"

text \<open>
  Slice bounds as Python adjusts them for a sequence of length \<open>n\<close>: a negative bound
  counts from the end, and the result is clamped to \<open>0..n\<close>.
\<close>

definition slice_bound :: "nat \<Rightarrow> int \<Rightarrow> nat" where
  "slice_bound n i = (if i < 0 then nat (i + int n) else min (nat i) n)"

text \<open>\<open>xs[i:j]\<close> and \<open>xs[i:]\<close>.\<close>

definition py_slice :: "'a list \<Rightarrow> int \<Rightarrow> int \<Rightarrow> 'a list" where
  "py_slice xs i j =
     take (slice_bound (length xs) j - slice_bound (length xs) i)
       (drop (slice_bound (length xs) i) xs)"

definition py_slice_from :: "'a list \<Rightarrow> int \<Rightarrow> 'a list" where
  "py_slice_from xs i = drop (slice_bound (length xs) i) xs"

text \<open>
  \<open>s.rfind(c, i, j)\<close> for a one-character \<open>c\<close>: the highest index in the adjusted
  range that holds \<open>c\<close>, or \<open>-1\<close>.
\<close>

definition rfind :: "pystr \<Rightarrow> nat \<Rightarrow> int \<Rightarrow> int \<Rightarrow> int" where
  "rfind s c i j =
     (case filter (\<lambda>k. s ! k = c) (rev [slice_bound (length s) i ..< slice_bound (length s) j]) of
        [] \<Rightarrow> - 1
      | k # _ \<Rightarrow> int k)"

text \<open>\<open>max(xs, default=d)\<close> on integers.\<close>

fun max_default :: "int list \<Rightarrow> int \<Rightarrow> int" where
  "max_default [] d = d"
| "max_default (x # xs) d = fold max xs x"

section \<open>The three patterns of the chunker\<close>

text \<open>
  Each function lists \<open>match.end()\<close> for the matches that \<open>re.finditer\<close> yields on the
  given text, left to right and without overlap. The first argument is the index of the
  head of the text that is still to be scanned.
\<close>

definition terminal :: "nat \<Rightarrow> bool" where
  "terminal c \<longleftrightarrow> c = 46 \<or> c = 33 \<or> c = 63"

definition closing_quote :: "nat \<Rightarrow> bool" where
  "closing_quote c \<longleftrightarrow> c = 34 \<or> c = 187"

text \<open>\<open>[.!?]\s+\<close>: a terminal mark and the whole run of whitespace after it.\<close>

function finditer_sentence :: "nat \<Rightarrow> pystr \<Rightarrow> nat list" where
  "finditer_sentence i [] = []"
| "finditer_sentence i (c # cs) =
     (if terminal c \<and> takeWhile isspace cs \<noteq> []
      then (i + 1 + length (takeWhile isspace cs))
             # finditer_sentence (i + 1 + length (takeWhile isspace cs)) (dropWhile isspace cs)
      else finditer_sentence (i + 1) cs)"
  by pat_completeness auto
termination
  by (relation "measure (\<lambda>(i, s). length s)") (auto simp: length_dropWhile_le less_Suc_eq_le)

text \<open>\<open>[.!?]["\<guillemotright>"]\s+\<close>: a terminal mark, a closing quote, and the run of whitespace.\<close>

function finditer_quote :: "nat \<Rightarrow> pystr \<Rightarrow> nat list" where
  "finditer_quote i [] = []"
| "finditer_quote i [c] = []"
| "finditer_quote i (c # q # cs) =
     (if terminal c \<and> closing_quote q \<and> takeWhile isspace cs \<noteq> []
      then (i + 2 + length (takeWhile isspace cs))
             # finditer_quote (i + 2 + length (takeWhile isspace cs)) (dropWhile isspace cs)
      else finditer_quote (i + 1) (q # cs))"
  by pat_completeness auto
termination
  by (relation "measure (\<lambda>(i, s). length s)")
     (auto simp: less_Suc_eq_le intro: le_SucI length_dropWhile_le)

text \<open>
  \<open>\n\s*\n\<close>: a newline, then whitespace up to the last newline of the run (the star is
  greedy and gives back what follows that newline).
\<close>

definition upto_last_newline :: "pystr \<Rightarrow> nat" where
  "upto_last_newline run = length run - length (takeWhile (\<lambda>d. d \<noteq> 10) (rev run))"

function finditer_para :: "nat \<Rightarrow> pystr \<Rightarrow> nat list" where
  "finditer_para i [] = []"
| "finditer_para i (c # cs) =
     (if c = 10 \<and> 10 \<in> set (takeWhile isspace cs)
      then (i + 1 + upto_last_newline (takeWhile isspace cs))
             # finditer_para (i + 1 + upto_last_newline (takeWhile isspace cs))
                 (drop (upto_last_newline (takeWhile isspace cs)) cs)
      else finditer_para (i + 1) cs)"
  by pat_completeness auto
termination
  by (relation "measure (\<lambda>(i, s). length s)") auto

section \<open>TextChunker.chunk\_text\<close>

text \<open>
  The candidate lists of one iteration. \<open>chunk_end\<close> is the naive cut
  \<open>min(position + max_chars, text_length)\<close>; both patterns are searched in
  \<open>text[search_start:chunk_end + 100]\<close> and a match end is kept when
  \<open>position < actual_pos <= chunk_end + 100\<close>.
\<close>

definition in_window :: "int \<Rightarrow> int \<Rightarrow> int \<Rightarrow> bool" where
  "in_window position chunk_end actual_pos \<longleftrightarrow> position < actual_pos \<and> actual_pos \<le> chunk_end + 100"

definition search_start :: "int \<Rightarrow> int \<Rightarrow> int" where
  "search_start position chunk_end = max position (chunk_end - 200)"

definition search_text :: "pystr \<Rightarrow> int \<Rightarrow> int \<Rightarrow> pystr" where
  "search_text text position chunk_end =
     py_slice text (search_start position chunk_end) (chunk_end + 100)"

definition actual_positions :: "int \<Rightarrow> int \<Rightarrow> nat list \<Rightarrow> int list" where
  "actual_positions position chunk_end ends =
     filter (in_window position chunk_end)
       (map (\<lambda>e. search_start position chunk_end + int e) ends)"

definition plain_breaks :: "pystr \<Rightarrow> int \<Rightarrow> int \<Rightarrow> int list" where
  "plain_breaks text position chunk_end =
     actual_positions position chunk_end (finditer_sentence 0 (search_text text position chunk_end))"

definition quoted_breaks :: "pystr \<Rightarrow> int \<Rightarrow> int \<Rightarrow> int list" where
  "quoted_breaks text position chunk_end =
     actual_positions position chunk_end (finditer_quote 0 (search_text text position chunk_end))"

text \<open>\<open>sentence_breaks\<close> after both \<open>for\<close> loops: the matches of the first pattern, then those of the second.\<close>

definition sentence_breaks :: "pystr \<Rightarrow> int \<Rightarrow> int \<Rightarrow> int list" where
  "sentence_breaks text position chunk_end =
     plain_breaks text position chunk_end @ quoted_breaks text position chunk_end"

definition para_breaks :: "pystr \<Rightarrow> int \<Rightarrow> int \<Rightarrow> int list" where
  "para_breaks text position chunk_end =
     actual_positions position chunk_end (finditer_para 0 (search_text text position chunk_end))"

text \<open>\<open>max([b for b in breaks if b <= chunk_end], default=breaks[0])\<close>, for a non-empty list.\<close>

definition best_break :: "int \<Rightarrow> int list \<Rightarrow> int" where
  "best_break chunk_end breaks = max_default (filter (\<lambda>b. b \<le> chunk_end) breaks) (hd breaks)"

text \<open>The value of \<open>chunk_end\<close> when the slice of one iteration is taken.\<close>

definition choose_cut :: "pystr \<Rightarrow> int \<Rightarrow> int \<Rightarrow> int" where
  "choose_cut text max_chars position =
     (let text_length = int (length text);
          chunk_end = min (position + max_chars) text_length
      in if chunk_end < text_length then
           if sentence_breaks text position chunk_end \<noteq> [] then
             best_break chunk_end (sentence_breaks text position chunk_end)
           else if para_breaks text position chunk_end \<noteq> [] then
             best_break chunk_end (para_breaks text position chunk_end)
           else
             (let space_pos = rfind text 32 (chunk_end - 100) chunk_end
              in if space_pos > position then space_pos + 1 else chunk_end)
         else chunk_end)"

text \<open>
  One record per iteration of the \<open>while\<close> loop: the span \<open>[position, chunk_end)\<close> that
  was cut, and the tuple appended to \<open>chunks\<close>.
\<close>

record chunk_cut =
  cut_start :: int
  cut_end :: int
  cut_text :: pystr
  cut_context :: pystr
  cut_first :: bool

text \<open>
  \<open>previous_end\<close> as the loop recomputes it after appending a chunk. With
  \<open>context_size = 0\<close> the slice \<open>chunk_text[-0:]\<close> is the whole of \<open>chunk_text\<close>.
\<close>

definition next_previous_end :: "int \<Rightarrow> pystr \<Rightarrow> pystr" where
  "next_previous_end overlap chunk_text =
     (let context_size = min overlap (int (length chunk_text))
      in if int (length chunk_text) > context_size
         then py_slice_from chunk_text (- context_size)
         else chunk_text)"

text \<open>
  The \<open>while position < text_length\<close> loop. It need not end for every \<open>max_chars\<close>
  (with \<open>max_chars = 0\<close> the position may never advance), so not returning is \<open>None\<close>.
\<close>

partial_function (option) chunk_loop ::
  "pystr \<Rightarrow> int \<Rightarrow> int \<Rightarrow> int \<Rightarrow> pystr \<Rightarrow> chunk_cut list \<Rightarrow> chunk_cut list option" where
  "chunk_loop text max_chars overlap position previous_end chunks =
     (if position < int (length text) then
        (let chunk_end = choose_cut text max_chars position;
             chunk_text = strip (py_slice text position chunk_end)
         in chunk_loop text max_chars overlap chunk_end
              (next_previous_end overlap chunk_text)
              (chunks @ [\<lparr>cut_start = position, cut_end = chunk_end, cut_text = chunk_text,
                          cut_context = previous_end, cut_first = (position = 0)\<rparr>]))
      else Some chunks)"

declare chunk_loop.simps [code]

definition segment :: "chunk_cut \<Rightarrow> pystr \<times> pystr \<times> bool" where
  "segment c = (cut_text c, cut_context c, cut_first c)"

definition chunk_text :: "pystr \<Rightarrow> int \<Rightarrow> int \<Rightarrow> (pystr \<times> pystr \<times> bool) list option" where
  "chunk_text text max_chars overlap =
     (if max_chars = - 1 then Some [(text, [], True)]
      else if int (length text) \<le> max_chars then Some [(text, [], True)]
      else map_option (map segment) (chunk_loop text max_chars overlap 0 [] []))"

section \<open>Notions used to state the properties of the chunker\<close>

text \<open>
  \<open>loop_cuts\<close> holds of the list of records that the loop appends when it is entered with
  the given \<open>position\<close> and \<open>previous_end\<close> and leaves after finitely many iterations.
\<close>

fun loop_cuts :: "pystr \<Rightarrow> int \<Rightarrow> int \<Rightarrow> int \<Rightarrow> pystr \<Rightarrow> chunk_cut list \<Rightarrow> bool" where
  "loop_cuts text max_chars overlap position previous_end [] \<longleftrightarrow> \<not> position < int (length text)"
| "loop_cuts text max_chars overlap position previous_end (c # cs) \<longleftrightarrow>
     position < int (length text)
     \<and> c = \<lparr>cut_start = position, cut_end = choose_cut text max_chars position,
             cut_text = strip (py_slice text position (choose_cut text max_chars position)),
             cut_context = previous_end, cut_first = (position = 0)\<rparr>
     \<and> loop_cuts text max_chars overlap (choose_cut text max_chars position)
          (next_previous_end overlap (cut_text c)) cs"

text \<open>The raw slice \<open>text[position:chunk_end]\<close> of a record, before \<open>strip\<close>.\<close>

definition raw_span :: "pystr \<Rightarrow> chunk_cut \<Rightarrow> pystr" where
  "raw_span text c = py_slice text (cut_start c) (cut_end c)"

text \<open>Each span starts where the one before ended; the first starts at \<open>a\<close>, the last ends at \<open>b\<close>.\<close>

fun contiguous :: "int \<Rightarrow> chunk_cut list \<Rightarrow> int \<Rightarrow> bool" where
  "contiguous a [] b \<longleftrightarrow> a = b"
| "contiguous a (c # cs) b \<longleftrightarrow> cut_start c = a \<and> contiguous (cut_end c) cs b"

text \<open>
  The cut as the specification words it: the latest candidate that does not exceed the
  naive cut, and the earliest candidate when none qualifies.
\<close>

definition spec_cut :: "int \<Rightarrow> int list \<Rightarrow> int" where
  "spec_cut naive_cut candidates =
     (if filter (\<lambda>b. b \<le> naive_cut) candidates \<noteq> []
      then Max (set (filter (\<lambda>b. b \<le> naive_cut) candidates))
      else Min (set candidates))"

text \<open>
  The candidates as the specification words their window: the match ends of both patterns
  anywhere in the document that lie strictly after \<open>position\<close> and at most at the naive cut
  plus 100.
\<close>

definition spec_candidates :: "pystr \<Rightarrow> int \<Rightarrow> int \<Rightarrow> int list" where
  "spec_candidates text position naive_cut =
     filter (in_window position naive_cut)
       (map int (finditer_sentence 0 text) @ map int (finditer_quote 0 text))"

section \<open>OllamaProcessor.deduplicate\_paragraphs\<close>

text \<open>\<open>text.split('\n\n')\<close>: the pieces between the occurrences of two newlines, found left to right.\<close>

fun split_blank :: "pystr \<Rightarrow> pystr list" where
  "split_blank [] = [[]]"
| "split_blank [c] = [[c]]"
| "split_blank (c # d # cs) =
     (if c = 10 \<and> d = 10 then [] # split_blank cs
      else (case split_blank (d # cs) of p # ps \<Rightarrow> (c # p) # ps | [] \<Rightarrow> [[c]]))"

text \<open>
  \<open>s.split()\<close>: the maximal runs of non-whitespace. The first argument is the word being
  collected.
\<close>

fun split_ws :: "pystr \<Rightarrow> pystr \<Rightarrow> pystr list" where
  "split_ws w [] = (if w = [] then [] else [w])"
| "split_ws w (c # cs) =
     (if isspace c then (if w = [] then split_ws [] cs else w # split_ws [] cs)
      else split_ws (w @ [c]) cs)"

text \<open>\<open>sep.join(parts)\<close>.\<close>

fun join :: "pystr \<Rightarrow> pystr list \<Rightarrow> pystr" where
  "join sep [] = []"
| "join sep [x] = x"
| "join sep (x # y # ys) = x @ sep @ join sep (y # ys)"

text \<open>
  \<open>str.lower()\<close> is the Unicode lowercasing of the Python runtime, with its multi-character
  and context-dependent mappings. The model takes it as the parameter \<open>lower\<close>, so that what
  is proved holds for whatever it computes. \<open>ascii_lower\<close> agrees with it on ASCII text and
  serves in the examples.
\<close>

definition ascii_lower :: "pystr \<Rightarrow> pystr" where
  "ascii_lower s = map (\<lambda>c. if 65 \<le> c \<and> c \<le> 90 then c + 32 else c) s"

text \<open>\<open>' '.join(para_stripped.lower().split())\<close>.\<close>

definition normalize_paragraph :: "(pystr \<Rightarrow> pystr) \<Rightarrow> pystr \<Rightarrow> pystr" where
  "normalize_paragraph lower para_stripped = join [32] (split_ws [] (lower para_stripped))"

text \<open>The \<open>for para in paragraphs\<close> loop, with its \<open>seen\<close> set and its \<open>deduplicated\<close> list.\<close>

fun dedup_loop :: "(pystr \<Rightarrow> pystr) \<Rightarrow> pystr list \<Rightarrow> pystr set \<Rightarrow> pystr list \<Rightarrow> pystr list" where
  "dedup_loop lower [] seen deduplicated = deduplicated"
| "dedup_loop lower (para # paragraphs) seen deduplicated =
     (if strip para = [] then dedup_loop lower paragraphs seen deduplicated
      else if normalize_paragraph lower (strip para) \<notin> seen
      then dedup_loop lower paragraphs (insert (normalize_paragraph lower (strip para)) seen)
             (deduplicated @ [strip para])
      else dedup_loop lower paragraphs seen deduplicated)"

definition deduplicate_paragraphs :: "(pystr \<Rightarrow> pystr) \<Rightarrow> pystr \<Rightarrow> pystr" where
  "deduplicate_paragraphs lower text = join [10, 10] (dedup_loop lower (split_blank text) {} [])"

text \<open>Notions used to state the properties of the deduplication.\<close>

text \<open>The normalized form of every paragraph of a text, in order.\<close>

definition paragraph_forms :: "(pystr \<Rightarrow> pystr) \<Rightarrow> pystr \<Rightarrow> pystr list" where
  "paragraph_forms lower text = map (\<lambda>para. normalize_paragraph lower (strip para)) (split_blank text)"

text \<open>The paragraphs stripped, the blank ones left out.\<close>

definition kept_paragraphs :: "pystr list \<Rightarrow> pystr list" where
  "kept_paragraphs paragraphs = filter (\<lambda>k. k \<noteq> []) (map strip paragraphs)"

text \<open>No two adjacent newlines.\<close>

fun no_blank :: "pystr \<Rightarrow> bool" where
  "no_blank [] \<longleftrightarrow> True"
| "no_blank [c] \<longleftrightarrow> True"
| "no_blank (c # d # cs) \<longleftrightarrow> \<not> (c = 10 \<and> d = 10) \<and> no_blank (d # cs)"

text \<open>A paragraph as \<open>deduplicate_paragraphs\<close> emits it: not blank, stripped, and free of blank lines.\<close>

definition paragraph_ok :: "pystr \<Rightarrow> bool" where
  "paragraph_ok k \<longleftrightarrow> k \<noteq> [] \<and> strip k = k \<and> no_blank k"

section \<open>The collaborators of OllamaProcessor\<close>

text \<open>
  What a call can raise. The classes are those that the handlers of \<open>process_with_llm\<close>
  tell apart; every value stands for an instance of \<open>Exception\<close>, with \<open>str(e)\<close> as its second
  component. Signals that derive from \<open>BaseException\<close> only (task cancellation, interpreter
  exit) are not failures of a call and are outside the model.
\<close>

datatype exc_class =
  TimeoutError | ConnectionError | ResponseError | KeyError | AttributeError | IndexError
  | OtherException pystr

datatype py_exc = Exc (class_of: exc_class) (str_of: pystr)

text \<open>\<open>type(e).__name__\<close>.\<close>

fun class_name :: "exc_class \<Rightarrow> pystr" where
  "class_name TimeoutError = py ''TimeoutError''"
| "class_name ConnectionError = py ''ConnectionError''"
| "class_name ResponseError = py ''ResponseError''"
| "class_name KeyError = py ''KeyError''"
| "class_name AttributeError = py ''AttributeError''"
| "class_name IndexError = py ''IndexError''"
| "class_name (OtherException name) = name"

text \<open>
  The shapes of a chat response that \<open>process_with_llm\<close> tells apart: a \<open>dict\<close>, with what
  \<open>response['message']['content']\<close> yields; an object with a \<open>message\<close> that has a \<open>content\<close>,
  with what \<open>response.message.content\<close> yields; an object whose \<open>message\<close> has no \<open>content\<close>,
  with \<open>str(response.message)\<close>; anything else, with \<open>str(response)\<close>. The first component
  of the last three is \<open>str(type(response))\<close>.
\<close>

datatype response =
    DictResponse "py_exc + pystr"
  | ContentResponse pystr "py_exc + pystr"
  | MessageResponse pystr pystr
  | OtherResponse pystr pystr

record chat_request =
  req_model :: pystr
  req_system :: pystr
  req_user :: pystr
  req_temperature :: real

text \<open>
  The world the processor runs in: the chat service (the reply to the \<open>n\<close>-th request),
  the model listing of the connection test, the file system (reading a path; the \<open>n\<close>-th
  attempt to write a path), the moments at which the user presses stop
  (\<open>stop_processing\<close> runs on the same event loop, so only while an \<open>await\<close> is pending: the
  \<open>n\<close>-th one), and three library functions taken as they are: \<open>str.lower\<close>, \<open>str.format\<close>
  with keyword arguments, and \<open>os.path.splitext\<close>.
\<close>

record world =
  client_chat :: "nat \<Rightarrow> chat_request \<Rightarrow> py_exc + response"
  client_list :: "py_exc option"
  open_read :: "pystr \<Rightarrow> py_exc + pystr"
  open_write :: "nat \<Rightarrow> pystr \<Rightarrow> pystr \<Rightarrow> py_exc option"
  stop_during :: "nat \<Rightarrow> bool"
  str_lower :: "pystr \<Rightarrow> pystr"
  str_format :: "pystr \<Rightarrow> (pystr \<times> pystr) list \<Rightarrow> py_exc + pystr"
  os_splitext :: "pystr \<Rightarrow> pystr \<times> pystr"

section \<open>OllamaProcessor: state and signals\<close>

datatype signal =
    processing_progress nat nat pystr
  | processing_finished pystr
  | processing_error pystr
  | step_status pystr
  | step_saved pystr

text \<open>
  The two attributes of the object, and what it has done so far: the signals emitted, the
  files written, the chat requests sent, and how many \<open>await\<close>s and write attempts have
  taken place.
\<close>

record processor =
  is_running :: bool
  output_base_path :: "pystr option"
  emitted :: "signal list"
  written :: "(pystr \<times> pystr) list"
  requests :: "chat_request list"
  awaits :: nat
  write_attempts :: nat

text \<open>How a call ends: it returns a value, raises, or never comes back.\<close>

datatype 'a result = Returned 'a processor | Raised py_exc processor | Diverged

definition emit :: "signal \<Rightarrow> processor \<Rightarrow> processor" where
  "emit s st = st\<lparr>emitted := emitted st @ [s]\<rparr>"

text \<open>An \<open>await\<close>: control goes to the event loop, where a pending stop clears the flag.\<close>

definition await_point :: "world \<Rightarrow> processor \<Rightarrow> processor" where
  "await_point w st =
     st\<lparr>awaits := awaits st + 1,
        is_running := is_running st \<and> \<not> stop_during w (awaits st)\<rparr>"

text \<open>\<open>str(n)\<close> for a natural number, and the format \<open>{n:02d}\<close>.\<close>

function str_nat :: "nat \<Rightarrow> pystr" where
  "str_nat n = (if n < 10 then [48 + n] else str_nat (n div 10) @ [48 + n mod 10])"
  by pat_completeness auto
termination
  by (relation "measure id") auto

declare str_nat.simps [simp del]

definition format_02d :: "nat \<Rightarrow> pystr" where
  "format_02d n = (if n < 10 then 48 # str_nat n else str_nat n)"

text \<open>\<open>d.get(key, default)\<close> on an optional entry.\<close>

definition get_default :: "'a option \<Rightarrow> 'a \<Rightarrow> 'a" where
  "get_default entry d = (case entry of None \<Rightarrow> d | Some v \<Rightarrow> v)"

section \<open>generate\_step\_filename and save\_step\<close>

definition generate_step_filename :: "world \<Rightarrow> processor \<Rightarrow> pystr \<Rightarrow> pystr option" where
  "generate_step_filename w st step_name =
     (case output_base_path st of
        None \<Rightarrow> None
      | Some path \<Rightarrow>
          if path = [] then None
          else (case os_splitext w path of
                  (base, ext) \<Rightarrow> Some (base @ py ''_step_'' @ step_name @ ext)))"

text \<open>
  \<open>save_step\<close> catches what the write raises and reports it; a write that fails leaves no
  entry in \<open>written\<close>.
\<close>

definition save_step :: "world \<Rightarrow> pystr \<Rightarrow> pystr \<Rightarrow> processor \<Rightarrow> processor" where
  "save_step w content step_name st =
     (case generate_step_filename w st step_name of
        None \<Rightarrow> st
      | Some step_file \<Rightarrow>
          if step_file = [] then st
          else (case open_write w (write_attempts st) step_file content of
                  None \<Rightarrow>
                    emit (step_saved step_file)
                      (st\<lparr>written := written st @ [(step_file, content)],
                          write_attempts := write_attempts st + 1\<rparr>)
                | Some e \<Rightarrow>
                    emit (processing_error (py ''Error saving step '' @ step_name @ py '': '' @ str_of e))
                      (st\<lparr>write_attempts := write_attempts st + 1\<rparr>)))"

section \<open>process\_with\_llm\<close>

text \<open>The block that reads the text out of the response, before \<open>.strip()\<close>.\<close>

fun response_content :: "response \<Rightarrow> py_exc + pystr" where
  "response_content (DictResponse r) = r"
| "response_content (ContentResponse t r) = r"
| "response_content (MessageResponse t s) = Inr s"
| "response_content (OtherResponse t s) = Inr s"

fun response_type :: "response \<Rightarrow> pystr" where
  "response_type (DictResponse r) = py ''<class 'dict'>''"
| "response_type (ContentResponse t r) = t"
| "response_type (MessageResponse t s) = t"
| "response_type (OtherResponse t s) = t"

text \<open>
  The inner \<open>try\<close>: a \<open>KeyError\<close> or \<open>AttributeError\<close> is raised again as a plain \<open>Exception\<close>;
  anything else passes through to the outer handlers.
\<close>

definition interpret_response :: "response \<Rightarrow> py_exc + pystr" where
  "interpret_response response =
     (case response_content response of
        Inr content \<Rightarrow> Inr (strip content)
      | Inl e \<Rightarrow>
          if class_of e = KeyError \<or> class_of e = AttributeError
          then Inl (Exc (OtherException (py ''Exception''))
                     (py ''Cannot parse Ollama response: '' @ response_type response
                        @ py ''. Error: '' @ str_of e))
          else Inl e)"

definition unwanted_prefixes :: "pystr list" where
  "unwanted_prefixes =
     [py ''here is the translation:'',
      py ''translation:'',
      py ''here'' @ [39] @ py ''s the translation:'',
      py ''translated text:'',
      py ''here is the complete translation:'',
      py ''complete translation:'',
      py ''here is the processed text:'',
      py ''processed text:'']"

text \<open>The \<open>for prefix in unwanted_prefixes\<close> loop, which stops at the first prefix that matches.\<close>

fun remove_prefix :: "pystr list \<Rightarrow> pystr \<Rightarrow> pystr \<Rightarrow> pystr" where
  "remove_prefix [] result_lower result = result"
| "remove_prefix (prefix # prefixes) result_lower result =
     (if take (length prefix) result_lower = prefix
      then strip (drop (length prefix) result)
      else remove_prefix prefixes result_lower result)"

text \<open>
  The body of the outer \<open>try\<close>: the request is sent, the reply awaited, the response read
  and its lead-in removed. \<open>Inl\<close> is an exception on its way to the handlers.
\<close>

definition chat_attempt :: "world \<Rightarrow> chat_request \<Rightarrow> processor \<Rightarrow> (py_exc + pystr) \<times> processor" where
  "chat_attempt w request st =
     (let reply = client_chat w (length (requests st)) request;
          st' = await_point w (st\<lparr>requests := requests st @ [request]\<rparr>)
      in case reply of
           Inl e \<Rightarrow> (Inl e, st')
         | Inr response \<Rightarrow>
             (case interpret_response response of
                Inl e \<Rightarrow> (Inl e, st')
              | Inr result \<Rightarrow> (Inr (remove_prefix unwanted_prefixes (str_lower w result) result), st')))"

text \<open>The placeholder \<open>f"[TAG: {text[:100]}...]"\<close>.\<close>

definition placeholder :: "pystr \<Rightarrow> pystr \<Rightarrow> pystr" where
  "placeholder tag text = py ''['' @ tag @ py '': '' @ take 100 text @ py ''...]''"

text \<open>The four \<open>except\<close> clauses, in their order; the last one catches every \<open>Exception\<close>.\<close>

definition process_with_llm ::
  "world \<Rightarrow> pystr \<Rightarrow> pystr \<Rightarrow> pystr \<Rightarrow> pystr \<Rightarrow> real \<Rightarrow> processor \<Rightarrow> pystr result" where
  "process_with_llm w text system_prompt user_prompt model temperature st =
     (case chat_attempt w
             \<lparr>req_model = model, req_system = system_prompt, req_user = user_prompt,
              req_temperature = temperature\<rparr> st of
        (Inr result, st') \<Rightarrow> Returned result st'
      | (Inl e, st') \<Rightarrow>
          if class_of e = TimeoutError then
            Returned (placeholder (py ''TIMEOUT ERROR'') text)
              (emit (processing_error
                 ([9201, 65039] @ py '' Timeout: Ollama took too long to respond (>2 min). Check if model ''
                    @ [39] @ model @ [39] @ py '' is loaded.'')) st')
          else if class_of e = ConnectionError then
            Returned (placeholder (py ''CONNECTION ERROR'') text)
              (emit (processing_error
                 ([128268] @ py '' Connection Error: Cannot connect to Ollama. Is it running?''
                    @ [10] @ py ''Details: '' @ str_of e)) st')
          else if class_of e = ResponseError then
            Returned (placeholder (py ''PROCESSING FAILED'') text)
              (emit (processing_error ([10060] @ py '' Ollama Error: '' @ str_of e)) st')
          else
            Returned (placeholder (py ''ERROR'') text)
              (emit (processing_error
                 ([10060] @ py '' Unexpected Error: '' @ class_name (class_of e) @ py '': ''
                    @ str_of e)) st'))"

section \<open>Operation settings\<close>

text \<open>
  The dictionaries that the presentation layer hands over, with the keys the processor
  reads. A key that may be missing is an optional field, read with \<open>get_default\<close>;
  \<open>operation_id\<close> and \<open>config\<close> are read with \<open>[...]\<close> and are always there.
  \<open>sub_op_enabled\<close> is the truth value of \<open>op_settings.get(sub_op_id, False)\<close>.
\<close>

record sub_operation =
  sub_system :: "pystr option"
  sub_step_name :: "pystr option"

record operation_config =
  cfg_prompts :: "(pystr \<times> pystr) list option"
  cfg_step_name :: "pystr option"
  cfg_tab_name :: "pystr option"
  cfg_sub_operations :: "(pystr \<times> sub_operation) list option"

record settings =
  operation_id :: pystr
  config :: operation_config
  op_model :: "pystr option"
  op_source_language :: "pystr option"
  op_target_language :: "pystr option"
  op_chunk_size :: "int option"
  op_overlap :: "int option"
  op_deduplicate :: "bool option"
  op_temperature :: "real option"
  sub_op_enabled :: "pystr \<Rightarrow> bool"

text \<open>\<open>prompts.get(key, '')\<close> after \<open>prompts = op_config.get('prompts', {})\<close>.\<close>

definition prompt :: "settings \<Rightarrow> pystr \<Rightarrow> pystr" where
  "prompt op_settings key =
     get_default (map_of (get_default (cfg_prompts (config op_settings)) []) key) []"

text \<open>
  The local variables that both executors read out of \<open>op_settings\<close> with their defaults.
\<close>

definition model_of :: "settings \<Rightarrow> pystr" where
  "model_of op_settings = get_default (op_model op_settings) (py ''mistral:latest'')"

definition src_lang_of :: "settings \<Rightarrow> pystr" where
  "src_lang_of op_settings = get_default (op_source_language op_settings) (py ''English'')"

definition target_lang_of :: "settings \<Rightarrow> pystr" where
  "target_lang_of op_settings = get_default (op_target_language op_settings) (py ''Czech'')"

definition overlap_of :: "settings \<Rightarrow> int" where
  "overlap_of op_settings = get_default (op_overlap op_settings) 200"

definition tab_name_of :: "settings \<Rightarrow> pystr \<Rightarrow> pystr" where
  "tab_name_of op_settings d = get_default (cfg_tab_name (config op_settings)) d"

section \<open>execute\_translation\<close>

text \<open>
  The two prompts of one chunk. The continuation pair is taken when the chunk is not the
  first and its context is not empty. An exception of \<open>.format\<close> is not caught.
\<close>

definition translation_prompts ::
  "world \<Rightarrow> settings \<Rightarrow> pystr \<Rightarrow> pystr \<Rightarrow> bool \<Rightarrow> py_exc + (pystr \<times> pystr)" where
  "translation_prompts w op_settings chunk context is_first =
     (let src_lang = src_lang_of op_settings;
          target_lang = target_lang_of op_settings
      in if \<not> is_first \<and> context \<noteq> [] then
           (let context_snippet =
                  (if length context > 150 then py_slice_from context (- 150) else context)
            in case str_format w (prompt op_settings (py ''system_continuation''))
                      [(py ''src_lang'', src_lang), (py ''target_lang'', target_lang)] of
                 Inl e \<Rightarrow> Inl e
               | Inr system_prompt \<Rightarrow>
                   (case str_format w (prompt op_settings (py ''user_continuation''))
                           [(py ''src_lang'', src_lang), (py ''target_lang'', target_lang),
                            (py ''context_snippet'', context_snippet), (py ''chunk'', chunk)] of
                      Inl e \<Rightarrow> Inl e
                    | Inr user_prompt \<Rightarrow> Inr (system_prompt, user_prompt)))
         else
           (case str_format w (prompt op_settings (py ''system_first''))
                   [(py ''src_lang'', src_lang), (py ''target_lang'', target_lang)] of
              Inl e \<Rightarrow> Inl e
            | Inr system_prompt \<Rightarrow>
                (case str_format w (prompt op_settings (py ''user_first''))
                        [(py ''src_lang'', src_lang), (py ''target_lang'', target_lang),
                         (py ''chunk'', chunk)] of
                   Inl e \<Rightarrow> Inl e
                 | Inr user_prompt \<Rightarrow> Inr (system_prompt, user_prompt))))"

text \<open>The temperature of every translation call, and the texts of the loop.\<close>

definition translation_temperature :: real where
  "translation_temperature = 0.3"

definition translation_phase :: "settings \<Rightarrow> pystr" where
  "translation_phase op_settings =
     py ''Translating ('' @ src_lang_of op_settings @ [32, 8594, 32] @ target_lang_of op_settings
       @ py '')''"

definition progress_step_name :: "settings \<Rightarrow> pystr" where
  "progress_step_name op_settings =
     get_default (cfg_step_name (config op_settings)) (py ''translation'') @ py ''_progress''"

definition translation_status :: "settings \<Rightarrow> nat \<Rightarrow> pystr" where
  "translation_status op_settings total_chunks =
     [128221] @ py '' Translation: '' @ src_lang_of op_settings @ [32, 8594, 32]
       @ target_lang_of op_settings @ py '' | '' @ str_nat total_chunks
       @ py '' chunks | Model: '' @ model_of op_settings"

text \<open>\<open>last_translation\<close> as the loop recomputes it from the translated chunk.\<close>

definition next_last_translation :: "int \<Rightarrow> pystr \<Rightarrow> pystr" where
  "next_last_translation overlap translated_chunk =
     (let context_size = min overlap (int (length translated_chunk))
      in if int (length translated_chunk) > context_size
         then py_slice_from translated_chunk (- context_size)
         else translated_chunk)"

text \<open>
  The \<open>for i, (chunk, context, is_first) in enumerate(chunks)\<close> loop, with the variables
  it carries round: \<open>i\<close>, \<open>translated_parts\<close> and \<open>last_translation\<close>.
\<close>

fun translation_loop ::
  "world \<Rightarrow> settings \<Rightarrow> nat \<Rightarrow> nat \<Rightarrow> (pystr \<times> pystr \<times> bool) list \<Rightarrow> pystr list \<Rightarrow> pystr
     \<Rightarrow> processor \<Rightarrow> pystr list result" where
  "translation_loop w op_settings total_chunks i [] translated_parts last_translation st =
     Returned translated_parts st"
| "translation_loop w op_settings total_chunks i ((chunk, context, is_first) # rest)
     translated_parts last_translation st =
     (if \<not> is_running st then Returned translated_parts st
      else
        (case translation_prompts w op_settings chunk context is_first of
           Inl e \<Rightarrow> Raised e st
         | Inr (system_prompt, user_prompt) \<Rightarrow>
             (case process_with_llm w chunk system_prompt user_prompt (model_of op_settings)
                     translation_temperature st of
                Diverged \<Rightarrow> Diverged
              | Raised e st1 \<Rightarrow> Raised e st1
              | Returned translated_chunk st1 \<Rightarrow>
                  translation_loop w op_settings total_chunks (i + 1) rest
                    (translated_parts @ [translated_chunk])
                    (next_last_translation (overlap_of op_settings) translated_chunk)
                    (await_point w
                       (emit (processing_progress (i + 1) total_chunks (translation_phase op_settings))
                          (save_step w (join [10, 10] (translated_parts @ [translated_chunk]))
                             (progress_step_name op_settings) st1))))))"

definition execute_translation :: "world \<Rightarrow> pystr \<Rightarrow> settings \<Rightarrow> processor \<Rightarrow> pystr result" where
  "execute_translation w text op_settings st =
     (case chunk_text text (get_default (op_chunk_size op_settings) 2500) (overlap_of op_settings) of
        None \<Rightarrow> Diverged
      | Some chunks \<Rightarrow>
          if length chunks = 0 then Returned text st
          else
            (case translation_loop w op_settings (length chunks) 0 chunks [] []
                    (emit (step_status (translation_status op_settings (length chunks))) st) of
               Diverged \<Rightarrow> Diverged
             | Raised e st' \<Rightarrow> Raised e st'
             | Returned translated_parts st' \<Rightarrow>
                 Returned
                   (if get_default (op_deduplicate op_settings) True
                    then deduplicate_paragraphs (str_lower w) (join [10, 10] translated_parts)
                    else join [10, 10] translated_parts)
                   st'))"

section \<open>build\_combined\_prompt\<close>

text \<open>\<open>s.replace(old, new)\<close>: the occurrences of \<open>old\<close> found left to right, without overlap.\<close>

function str_replace :: "pystr \<Rightarrow> pystr \<Rightarrow> pystr \<Rightarrow> pystr" where
  "str_replace old new [] = (if old = [] then new else [])"
| "str_replace old new (c # cs) =
     (if old = [] then new @ c # str_replace old new cs
      else if take (length old) (c # cs) = old
      then new @ str_replace old new (drop (length old) (c # cs))
      else c # str_replace old new cs)"
  by pat_completeness auto
termination
  by (relation "measure (\<lambda>(old, new, s). length s)") auto

definition task_name_map :: "(pystr \<times> pystr) list" where
  "task_name_map =
     [(py ''improve_flow'', py ''improve flow and readability''),
      (py ''simplify_language'', py ''simplify complex language''),
      (py ''remove_idioms'', py ''replace idioms with literal language''),
      (py ''adjust_tone_formal'', py ''adjust tone to be more formal''),
      (py ''adjust_tone_casual'', py ''adjust tone to be more casual''),
      (py ''adjust_tone_professional'', py ''adjust tone to be more professional''),
      (py ''adjust_tone_conversational'', py ''adjust tone to be more conversational'')]"

definition task_name :: "pystr \<Rightarrow> pystr" where
  "task_name sub_op_id =
     get_default (map_of task_name_map sub_op_id) (str_replace (py ''_'') (py '' '') sub_op_id)"

text \<open>The chain of \<open>.replace(..., "")\<close> and \<open>.split('\n')[0]\<close> applied to the configured prompt.\<close>

definition core_instruction :: "pystr \<Rightarrow> pystr" where
  "core_instruction original_system =
     takeWhile (\<lambda>c. c \<noteq> 10)
       (str_replace (py '' Output ONLY the simplified text without any explanations.'') []
       (str_replace (py '' Output ONLY the rewritten text without any explanations.'') []
       (str_replace (py '' Output ONLY the processed text without any explanations.'') []
       (str_replace (py '' Do NOT omit any content, change the meaning, or alter factual information.'') []
       (str_replace (py '' DO NOT translate or change the language of the text.'') []
       (str_replace (py ''You are a professional content rewriter specializing in '') []
       (str_replace (py ''You are a professional content rewriter. Your task is to '') []
          original_system)))))))"

text \<open>
  The \<open>for idx, sub_op_id in enumerate(enabled_sub_ops, 1)\<close> loop; an identifier that is
  not configured is passed over, and still counts in \<open>idx\<close>.
\<close>

fun combined_tasks ::
  "(pystr \<times> sub_operation) list \<Rightarrow> nat \<Rightarrow> pystr list \<Rightarrow> pystr list \<Rightarrow> pystr list
     \<Rightarrow> pystr list \<times> pystr list" where
  "combined_tasks sub_ops idx [] system_parts task_descriptions = (system_parts, task_descriptions)"
| "combined_tasks sub_ops idx (sub_op_id # rest) system_parts task_descriptions =
     (case map_of sub_ops sub_op_id of
        None \<Rightarrow> combined_tasks sub_ops (idx + 1) rest system_parts task_descriptions
      | Some sub_op_config \<Rightarrow>
          combined_tasks sub_ops (idx + 1) rest
            (system_parts
               @ [[10] @ str_nat idx @ py ''. ''
                    @ core_instruction (get_default (sub_system sub_op_config) [])])
            (task_descriptions @ [task_name sub_op_id]))"

definition common_rules :: "pystr list" where
  "common_rules =
     [[10, 10] @ py ''CRITICAL REQUIREMENTS:'',
      [8226] @ py '' Perform ALL tasks listed above in a single pass - do not process the text multiple times'',
      [8226] @ py '' DO NOT translate or change the language of the text'',
      [8226] @ py '' Do NOT omit any content, change the meaning, or alter factual information'',
      [8226] @ py '' Preserve all key points, arguments, and details'',
      [8226] @ py '' All tasks should work together harmoniously in the output'',
      [10] @ py ''OUTPUT FORMAT:'',
      py ''Output ONLY the fully processed text with all tasks applied. No explanations, no meta-comments, no introductory remarks. Start immediately with the processed content.'']"

text \<open>
  \<open>task_descriptions[0]\<close> raises \<open>IndexError\<close> when no enabled identifier is configured.
\<close>

definition build_combined_prompt :: "settings \<Rightarrow> pystr list \<Rightarrow> py_exc + (pystr \<times> pystr)" where
  "build_combined_prompt op_settings enabled_sub_ops =
     (if enabled_sub_ops = [] then Inr ([], [])
      else
        (case combined_tasks (get_default (cfg_sub_operations (config op_settings)) []) 1
                enabled_sub_ops
                [py ''You are a professional content rewriter and editor. You will perform MULTIPLE tasks on the provided text in a SINGLE pass.'',
                 [10] @ py ''Your tasks are:'']
                [] of
           (system_parts, task_descriptions) \<Rightarrow>
             if task_descriptions = [] then Inl (Exc IndexError (py ''list index out of range''))
             else
               Inr (concat (system_parts @ common_rules),
                    py ''Process this text by applying these tasks: ''
                      @ join (py '', '') (butlast task_descriptions)
                      @ (if length task_descriptions > 1
                         then py '', and '' @ last task_descriptions
                         else hd task_descriptions)
                      @ py ''.'' @ [10, 10] @ py ''Text to process:'' @ [10, 10] @ py ''{text}'')))"

section \<open>execute\_combined\_operation\<close>

definition temperature_of :: "settings \<Rightarrow> real" where
  "temperature_of op_settings = get_default (op_temperature op_settings) 0.5"

definition combined_phase :: "settings \<Rightarrow> nat \<Rightarrow> pystr" where
  "combined_phase op_settings task_count =
     tab_name_of op_settings (py ''Processing'') @ py '' ('' @ str_nat task_count
       @ py '' tasks combined)''"

definition combined_status :: "settings \<Rightarrow> nat \<Rightarrow> nat \<Rightarrow> pystr" where
  "combined_status op_settings task_count total_chunks =
     [128295, 32] @ tab_name_of op_settings (py ''Processing'') @ py '': '' @ str_nat task_count
       @ py '' tasks combined | '' @ str_nat total_chunks @ py '' chunks | Model: ''
       @ model_of op_settings"

text \<open>The \<open>for idx, (chunk, context, is_first) in enumerate(chunks)\<close> loop.\<close>

fun combined_loop ::
  "world \<Rightarrow> settings \<Rightarrow> pystr \<Rightarrow> pystr \<Rightarrow> nat \<Rightarrow> nat \<Rightarrow> nat
     \<Rightarrow> (pystr \<times> pystr \<times> bool) list \<Rightarrow> pystr list \<Rightarrow> processor \<Rightarrow> pystr list result" where
  "combined_loop w op_settings system_prompt user_prompt_template task_count total_chunks idx []
     processed_chunks st = Returned processed_chunks st"
| "combined_loop w op_settings system_prompt user_prompt_template task_count total_chunks idx
     ((chunk, context, is_first) # rest) processed_chunks st =
     (if \<not> is_running st then Returned processed_chunks st
      else
        (case str_format w user_prompt_template [(py ''text'', chunk)] of
           Inl e \<Rightarrow> Raised e st
         | Inr formatted_user \<Rightarrow>
             (case process_with_llm w chunk system_prompt formatted_user (model_of op_settings)
                     (temperature_of op_settings) st of
                Diverged \<Rightarrow> Diverged
              | Raised e st1 \<Rightarrow> Raised e st1
              | Returned processed st1 \<Rightarrow>
                  combined_loop w op_settings system_prompt user_prompt_template task_count
                    total_chunks (idx + 1) rest (processed_chunks @ [processed])
                    (await_point w
                       (emit (processing_progress (idx + 1) total_chunks
                                (combined_phase op_settings task_count))
                          st1)))))"

definition execute_combined_operation ::
  "world \<Rightarrow> pystr \<Rightarrow> settings \<Rightarrow> pystr list \<Rightarrow> processor \<Rightarrow> pystr result" where
  "execute_combined_operation w text op_settings enabled_sub_ops st =
     (if enabled_sub_ops = [] then Returned text st
      else
        (case build_combined_prompt op_settings enabled_sub_ops of
           Inl e \<Rightarrow> Raised e st
         | Inr (system_prompt, user_prompt_template) \<Rightarrow>
             (case chunk_text text (get_default (op_chunk_size op_settings) 5000)
                     (overlap_of op_settings) of
                None \<Rightarrow> Diverged
              | Some chunks \<Rightarrow>
                  (case combined_loop w op_settings system_prompt user_prompt_template
                          (length enabled_sub_ops) (length chunks) 0 chunks []
                          (emit (step_status
                                   (combined_status op_settings (length enabled_sub_ops)
                                      (length chunks))) st) of
                     Diverged \<Rightarrow> Diverged
                   | Raised e st' \<Rightarrow> Raised e st'
                   | Returned processed_chunks st' \<Rightarrow>
                       Returned (deduplicate_paragraphs (str_lower w) (join [10, 10] processed_chunks))
                         st'))))"

section \<open>process\_pipeline\<close>

text \<open>The identifiers of the sub-operations whose flag is set, in the order of the configuration.\<close>

definition enabled_sub_operations :: "settings \<Rightarrow> pystr list" where
  "enabled_sub_operations op_settings =
     filter (sub_op_enabled op_settings)
       (map fst (get_default (cfg_sub_operations (config op_settings)) []))"

text \<open>\<open>'_'.join(step_names)\<close>, each name being \<open>sub_ops[sub_op_id].get('step_name', sub_op_id)\<close>.\<close>

definition combined_step_name :: "settings \<Rightarrow> pystr list \<Rightarrow> pystr" where
  "combined_step_name op_settings enabled_sub_ops =
     join (py ''_'')
       (map (\<lambda>sub_op_id.
              get_default
                (case map_of (get_default (cfg_sub_operations (config op_settings)) []) sub_op_id of
                   None \<Rightarrow> None
                 | Some sub_op_config \<Rightarrow> sub_step_name sub_op_config)
                sub_op_id)
          enabled_sub_ops)"

definition starting_status :: "settings \<Rightarrow> pystr" where
  "starting_status op_settings =
     [128260] @ py '' Starting: '' @ tab_name_of op_settings (operation_id op_settings)"

text \<open>The names of the numbered artifacts, \<open>f"{step_counter:02d}_{step_name}"\<close>.\<close>

definition translation_artifact :: "settings \<Rightarrow> nat \<Rightarrow> pystr" where
  "translation_artifact op_settings step_counter =
     format_02d step_counter @ py ''_''
       @ get_default (cfg_step_name (config op_settings)) (py ''translated'')"

definition combined_artifact :: "settings \<Rightarrow> nat \<Rightarrow> pystr" where
  "combined_artifact op_settings step_counter =
     format_02d step_counter @ py ''_''
       @ combined_step_name op_settings (enabled_sub_operations op_settings)"

text \<open>
  The \<open>for op_settings in pipeline\<close> loop; it returns \<open>text\<close> and \<open>step_counter\<close> as they are
  when the loop is left. The flag is read once, before the stage starts; the numbered
  artifact of a stage that ran is saved without reading it again.
\<close>

fun pipeline_loop ::
  "world \<Rightarrow> settings list \<Rightarrow> pystr \<Rightarrow> nat \<Rightarrow> processor \<Rightarrow> (pystr \<times> nat) result" where
  "pipeline_loop w [] text step_counter st = Returned (text, step_counter) st"
| "pipeline_loop w (op_settings # rest) text step_counter st =
     (if \<not> is_running st then Returned (text, step_counter) st
      else if operation_id op_settings = py ''translation'' then
        (case execute_translation w text op_settings
                (emit (step_status (starting_status op_settings)) st) of
           Diverged \<Rightarrow> Diverged
         | Raised e st' \<Rightarrow> Raised e st'
         | Returned text' st' \<Rightarrow>
             pipeline_loop w rest text' (step_counter + 1)
               (save_step w text' (translation_artifact op_settings step_counter) st'))
      else if enabled_sub_operations op_settings \<noteq> [] then
        (case execute_combined_operation w text op_settings (enabled_sub_operations op_settings)
                (emit (step_status (starting_status op_settings)) st) of
           Diverged \<Rightarrow> Diverged
         | Raised e st' \<Rightarrow> Raised e st'
         | Returned text' st' \<Rightarrow>
             pipeline_loop w rest text' (step_counter + 1)
               (save_step w text' (combined_artifact op_settings step_counter) st'))
      else
        pipeline_loop w rest text step_counter
          (emit (step_status (starting_status op_settings)) st))"

text \<open>The last block: the output is written only while the flag is still set.\<close>

definition write_output :: "world \<Rightarrow> pystr \<Rightarrow> pystr \<Rightarrow> processor \<Rightarrow> processor" where
  "write_output w output_path text st =
     (if is_running st then
        (case open_write w (write_attempts st) output_path text of
           None \<Rightarrow>
             emit (processing_finished output_path)
               (st\<lparr>written := written st @ [(output_path, text)],
                   write_attempts := write_attempts st + 1\<rparr>)
         | Some e \<Rightarrow>
             emit (processing_error (py ''File writing error: '' @ str_of e))
               (st\<lparr>write_attempts := write_attempts st + 1\<rparr>))
      else st)"

definition process_pipeline ::
  "world \<Rightarrow> pystr \<Rightarrow> pystr \<Rightarrow> settings list \<Rightarrow> processor \<Rightarrow> unit result" where
  "process_pipeline w input_path output_path pipeline st =
     (if is_running st then
        Returned () (emit (processing_error (py ''A process is already running.'')) st)
      else
        (let st1 = await_point w
                     (emit (step_status ([128269] @ py '' Testing Ollama connection...''))
                        (st\<lparr>is_running := True, output_base_path := Some output_path\<rparr>))
         in case client_list w of
              Some e \<Rightarrow>
                if class_of e = TimeoutError then
                  Returned ()
                    ((emit (processing_error
                              ([9201, 65039]
                                 @ py '' Timeout: Cannot connect to Ollama (5 sec timeout). Is Ollama running?''))
                        st1)\<lparr>is_running := False\<rparr>)
                else
                  Returned ()
                    ((emit (processing_error
                              ([128268] @ py '' Cannot connect to Ollama: '' @ str_of e @ [10, 10]
                                 @ py ''Make sure Ollama is running!''))
                        st1)\<lparr>is_running := False\<rparr>)
            | None \<Rightarrow>
                (let st2 = emit (step_status ([128214] @ py '' Reading input file...''))
                             (emit (step_status ([9989] @ py '' Ollama connected successfully'')) st1)
                 in case open_read w input_path of
                      Inl e \<Rightarrow>
                        Returned ()
                          ((emit (processing_error (py ''File reading error: '' @ str_of e)) st2)
                             \<lparr>is_running := False\<rparr>)
                    | Inr text \<Rightarrow>
                        (case pipeline_loop w pipeline text 1
                                (emit (step_status
                                         ([9989] @ py '' Loaded '' @ str_nat (length text)
                                            @ py '' characters''))
                                   st2) of
                           Diverged \<Rightarrow> Diverged
                         | Raised e st' \<Rightarrow> Raised e st'
                         | Returned (text', step_counter) st' \<Rightarrow>
                             Returned () ((write_output w output_path text' st')\<lparr>is_running := False\<rparr>)))))"

section \<open>Notions used to state the properties of the processor\<close>

text \<open>The tag that the placeholder of a failure carries, by the class of the failure.\<close>

definition failure_tag :: "exc_class \<Rightarrow> pystr" where
  "failure_tag c =
     (if c = TimeoutError then py ''TIMEOUT ERROR''
      else if c = ConnectionError then py ''CONNECTION ERROR''
      else if c = ResponseError then py ''PROCESSING FAILED''
      else py ''ERROR'')"

text \<open>A user who never presses stop, and a service that fails on every request.\<close>

definition never_stopped :: "world \<Rightarrow> bool" where
  "never_stopped w \<longleftrightarrow> (\<forall>n. \<not> stop_during w n)"

definition always_fails :: "world \<Rightarrow> py_exc \<Rightarrow> bool" where
  "always_fails w e \<longleftrightarrow> (\<forall>n request. client_chat w n request = Inl e)"

text \<open>The state in which a call ends, when it ends.\<close>

fun final_state :: "'a result \<Rightarrow> processor option" where
  "final_state (Returned x st) = Some st"
| "final_state (Raised e st) = Some st"
| "final_state Diverged = None"

text \<open>
  Two states agree on everything that decides what the processor does next and which
  requests it has sent; they may differ in what was written and emitted.
\<close>

definition same_control :: "processor \<Rightarrow> processor \<Rightarrow> bool" where
  "same_control a b \<longleftrightarrow>
     is_running a = is_running b \<and> awaits a = awaits b \<and> requests a = requests b
     \<and> output_base_path a = output_base_path b \<and> write_attempts a = write_attempts b"

fun same_outcome :: "'a result \<Rightarrow> 'b result \<Rightarrow> bool" where
  "same_outcome (Returned x a) (Returned y b) \<longleftrightarrow> same_control a b"
| "same_outcome (Raised e a) (Raised e' b) \<longleftrightarrow> e = e' \<and> same_control a b"
| "same_outcome Diverged Diverged \<longleftrightarrow> True"
| "same_outcome r r' \<longleftrightarrow> False"

text \<open>
  The request that \<open>execute_translation\<close> sends for a segment of the chunker, when its
  prompts can be formatted.
\<close>

definition translation_request ::
  "world \<Rightarrow> settings \<Rightarrow> pystr \<times> pystr \<times> bool \<Rightarrow> chat_request option" where
  "translation_request w op_settings seg =
     (case seg of
        (chunk, context, is_first) \<Rightarrow>
          (case translation_prompts w op_settings chunk context is_first of
             Inl e \<Rightarrow> None
           | Inr (system_prompt, user_prompt) \<Rightarrow>
               Some \<lparr>req_model = model_of op_settings, req_system = system_prompt,
                     req_user = user_prompt, req_temperature = translation_temperature\<rparr>))"

definition prompts_ready :: "world \<Rightarrow> settings \<Rightarrow> pystr \<times> pystr \<times> bool \<Rightarrow> bool" where
  "prompts_ready w op_settings seg \<longleftrightarrow> translation_request w op_settings seg \<noteq> None"

text \<open>The user prompt of a segment of the combined operation can be formatted.\<close>

definition template_ready :: "world \<Rightarrow> pystr \<Rightarrow> pystr \<times> pystr \<times> bool \<Rightarrow> bool" where
  "template_ready w user_prompt_template seg \<longleftrightarrow>
     (case str_format w user_prompt_template [(py ''text'', fst seg)] of
        Inl e \<Rightarrow> False
      | Inr formatted_user \<Rightarrow> True)"

section \<open>A small world for the examples\<close>

text \<open>
  A formatter for the examples: every \<open>{name}\<close> is replaced by the argument of that name,
  an unknown name raises \<open>KeyError\<close>, an unclosed brace raises. The second argument is the
  field name being read.
\<close>

fun fill_fields :: "(pystr \<times> pystr) list \<Rightarrow> pystr option \<Rightarrow> pystr \<Rightarrow> py_exc + pystr" where
  "fill_fields kwargs None [] = Inr []"
| "fill_fields kwargs (Some name) [] =
     Inl (Exc (OtherException (py ''ValueError'')) (py ''expected } before end of string''))"
| "fill_fields kwargs None (c # cs) =
     (if c = 123 then fill_fields kwargs (Some []) cs
      else (case fill_fields kwargs None cs of Inl e \<Rightarrow> Inl e | Inr s \<Rightarrow> Inr (c # s)))"
| "fill_fields kwargs (Some name) (c # cs) =
     (if c = 125 then
        (case map_of kwargs name of
           None \<Rightarrow> Inl (Exc KeyError name)
         | Some v \<Rightarrow> (case fill_fields kwargs None cs of Inl e \<Rightarrow> Inl e | Inr s \<Rightarrow> Inr (v @ s)))
      else fill_fields kwargs (Some (name @ [c])) cs)"

definition format_fields :: "pystr \<Rightarrow> (pystr \<times> pystr) list \<Rightarrow> py_exc + pystr" where
  "format_fields template kwargs = fill_fields kwargs None template"

text \<open>
  A service that answers every request with the same text, a file system that holds the
  document \<open>Aa. Bb.\<close> and accepts every write, and a user who never presses stop.
\<close>

definition quiet_world :: world where
  "quiet_world =
     \<lparr>client_chat = (\<lambda>n request. Inr (DictResponse (Inr (py ''Ahoj.'')))),
      client_list = None,
      open_read = (\<lambda>path. Inr (py ''Aa. Bb.'')),
      open_write = (\<lambda>n path content. None),
      stop_during = (\<lambda>n. False),
      str_lower = ascii_lower,
      str_format = format_fields,
      os_splitext = (\<lambda>path. (takeWhile (\<lambda>c. c \<noteq> 46) path, dropWhile (\<lambda>c. c \<noteq> 46) path))\<rparr>"

text \<open>The same world with a service that times out on every request.\<close>

definition failing_world :: world where
  "failing_world = quiet_world\<lparr>client_chat := (\<lambda>n request. Inl (Exc TimeoutError []))\<rparr>"

text \<open>
  The same world with a user who presses stop while the second \<open>await\<close> of the run is
  pending. The first \<open>await\<close> is the connection test, the second is the chat call of the
  first chunk of the first stage.
\<close>

definition stopping_world :: world where
  "stopping_world = quiet_world\<lparr>stop_during := (\<lambda>n. n = 1)\<rparr>"

text \<open>A translation stage that cuts chunks of four characters, and an idle processor.\<close>

definition translation_stage :: settings where
  "translation_stage =
     \<lparr>operation_id = py ''translation'',
      config =
        \<lparr>cfg_prompts = Some
           [(py ''system_first'', py ''Translate {src_lang} to {target_lang}.''),
            (py ''user_first'', py ''{chunk}''),
            (py ''system_continuation'', py ''Go on in {target_lang}.''),
            (py ''user_continuation'', py ''{context_snippet}|{chunk}'')],
         cfg_step_name = None, cfg_tab_name = None, cfg_sub_operations = None\<rparr>,
      op_model = None, op_source_language = None, op_target_language = None,
      op_chunk_size = Some 4, op_overlap = Some 2, op_deduplicate = None,
      op_temperature = None, sub_op_enabled = (\<lambda>sub_op_id. False)\<rparr>"

definition idle :: processor where
  "idle =
     \<lparr>is_running = False, output_base_path = None, emitted = [], written = [], requests = [],
      awaits = 0, write_attempts = 0\<rparr>"

definition started :: processor where
  "started = idle\<lparr>is_running := True, output_base_path := Some (py ''out.txt''), awaits := 1\<rparr>"

text \<open>The same world with a service whose responses lack the \<open>message\<close> key.\<close>

definition garbled_world :: world where
  "garbled_world =
     quiet_world\<lparr>client_chat :=
       (\<lambda>n request. Inr (DictResponse (Inl (Exc KeyError (py ''message'')))))\<rparr>"


text \<open>The two segments of the document \<open>Aa. Bb.\<close> cut at four characters with overlap two.\<close>

definition example_chunks :: "(pystr \<times> pystr \<times> bool) list" where
  "example_chunks = [(py ''Aa.'', [], True), (py ''Bb.'', py ''a.'', False)]"

section \<open>Slices, matches and the choice of the cut\<close>

lemma slice_bound_le: "slice_bound n i \<le> n"
  by (auto simp: slice_bound_def)

lemma slice_bound_nonneg: "0 \<le> i \<Longrightarrow> i \<le> int n \<Longrightarrow> slice_bound n i = nat i"
  by (auto simp: slice_bound_def)

lemma py_slice_nonneg:
  "0 \<le> i \<Longrightarrow> i \<le> j \<Longrightarrow> j \<le> int (length xs) \<Longrightarrow>
   py_slice xs i j = take (nat j - nat i) (drop (nat i) xs)"
  by (simp add: py_slice_def slice_bound_nonneg)

lemma length_py_slice: "length (py_slice xs i j) \<le> length xs - slice_bound (length xs) i"
  by (simp add: py_slice_def)

lemma finditer_sentence_bounds:
  "e \<in> set (finditer_sentence i s) \<Longrightarrow> i < e \<and> e \<le> i + length s"
proof (induction i s rule: finditer_sentence.induct)
  case (1 i)
  then show ?case by simp
next
  case (2 i c cs)
  have l: "length (takeWhile isspace cs) + length (dropWhile isspace cs) = length cs"
    by (metis length_append takeWhile_dropWhile_id)
  show ?case
  proof (cases "terminal c \<and> takeWhile isspace cs \<noteq> []")
    case True
    with 2 l show ?thesis by (auto split: if_splits)
  next
    case False
    with 2 show ?thesis by (auto split: if_splits)
  qed
qed

lemma finditer_quote_bounds:
  "e \<in> set (finditer_quote i s) \<Longrightarrow> i < e \<and> e \<le> i + length s"
proof (induction i s rule: finditer_quote.induct)
  case (1 i)
  then show ?case by simp
next
  case (2 i c)
  then show ?case by simp
next
  case (3 i c q cs)
  have l: "length (takeWhile isspace cs) + length (dropWhile isspace cs) = length cs"
    by (metis length_append takeWhile_dropWhile_id)
  show ?case
  proof (cases "terminal c \<and> closing_quote q \<and> takeWhile isspace cs \<noteq> []")
    case True
    with 3 l show ?thesis by (auto split: if_splits)
  next
    case False
    with 3 show ?thesis by (auto split: if_splits)
  qed
qed

lemma upto_last_newline_le: "upto_last_newline r \<le> length r"
  by (simp add: upto_last_newline_def)

lemma finditer_para_bounds:
  "e \<in> set (finditer_para i s) \<Longrightarrow> i < e \<and> e \<le> i + length s"
proof (induction i s rule: finditer_para.induct)
  case (1 i)
  then show ?case by simp
next
  case (2 i c cs)
  have l: "upto_last_newline (takeWhile isspace cs) \<le> length cs"
    by (meson le_trans length_takeWhile_le upto_last_newline_le)
  show ?case
  proof (cases "c = 10 \<and> 10 \<in> set (takeWhile isspace cs)")
    case True
    with 2 l show ?thesis by (auto split: if_splits)
  next
    case False
    with 2 show ?thesis by (auto split: if_splits)
  qed
qed

lemma loop_cuts_returns:
  "loop_cuts text mc ov position pe cuts \<Longrightarrow>
   chunk_loop text mc ov position pe acc = Some (acc @ cuts)"
proof (induction cuts arbitrary: position pe acc)
  case Nil
  then show ?case by (subst chunk_loop.simps) simp
next
  case (Cons c cs)
  from Cons.prems have lt: "position < int (length text)"
    and c: "c = \<lparr>cut_start = position, cut_end = choose_cut text mc position,
             cut_text = strip (py_slice text position (choose_cut text mc position)),
             cut_context = pe, cut_first = (position = 0)\<rparr>"
    and rest: "loop_cuts text mc ov (choose_cut text mc position)
          (next_previous_end ov (cut_text c)) cs"
    by auto
  have "chunk_loop text mc ov position pe acc =
        chunk_loop text mc ov (choose_cut text mc position)
          (next_previous_end ov (cut_text c)) (acc @ [c])"
    using lt c by (subst chunk_loop.simps) (simp add: Let_def)
  also have "\<dots> = Some ((acc @ [c]) @ cs)"
    by (rule Cons.IH [OF rest])
  finally show ?case by simp
qed

lemma actual_positions_mem:
  "b \<in> set (actual_positions position ce ends) \<Longrightarrow>
   position < b \<and> b \<le> ce + 100 \<and> (\<exists>e \<in> set ends. b = search_start position ce + int e)"
  by (auto simp: actual_positions_def in_window_def)

lemma search_end_le:
  assumes "0 \<le> position" "position \<le> int (length text)" "ce \<le> int (length text)"
    and "e \<le> length (search_text text position ce)"
  shows "search_start position ce + int e \<le> int (length text)"
proof -
  let ?ss = "search_start position ce"
  have ss: "0 \<le> ?ss" "?ss \<le> int (length text)"
    using assms by (auto simp: search_start_def)
  have "length (search_text text position ce) \<le> length text - nat ?ss"
    using length_py_slice [of "text" "?ss" "ce + 100"] ss
    by (simp add: search_text_def slice_bound_nonneg)
  with assms(4) ss show ?thesis by linarith
qed

lemma sentence_breaks_mem:
  assumes "0 \<le> position" "position \<le> int (length text)" "ce \<le> int (length text)"
    and "b \<in> set (sentence_breaks text position ce)"
  shows "position < b \<and> b \<le> int (length text)"
proof -
  from assms(4) obtain e where b: "position < b" "b = search_start position ce + int e"
    and e: "e \<le> length (search_text text position ce)"
    using finditer_sentence_bounds [of _ 0] finditer_quote_bounds [of _ 0]
    by (auto simp: sentence_breaks_def plain_breaks_def quoted_breaks_def dest!: actual_positions_mem)
  from search_end_le [OF assms(1-3) e] b show ?thesis by simp
qed

lemma para_breaks_mem:
  assumes "0 \<le> position" "position \<le> int (length text)" "ce \<le> int (length text)"
    and "b \<in> set (para_breaks text position ce)"
  shows "position < b \<and> b \<le> int (length text)"
proof -
  from assms(4) obtain e where b: "position < b" "b = search_start position ce + int e"
    and e: "e \<le> length (search_text text position ce)"
    using finditer_para_bounds [of _ 0]
    by (auto simp: para_breaks_def dest!: actual_positions_mem)
  from search_end_le [OF assms(1-3) e] b show ?thesis by simp
qed

lemma max_default_Max: "xs \<noteq> [] \<Longrightarrow> max_default xs d = Max (set xs)"
  by (cases xs) (simp_all add: Max.set_eq_fold [symmetric] del: set_simps)

lemma best_break_cases:
  "best_break ce bs =
     (if filter (\<lambda>b. b \<le> ce) bs = [] then hd bs else Max {b \<in> set bs. b \<le> ce})"
  by (simp add: best_break_def max_default_Max)

lemma best_break_mem: "bs \<noteq> [] \<Longrightarrow> best_break ce bs \<in> set bs"
proof (cases "filter (\<lambda>b. b \<le> ce) bs = []")
  case True
  assume "bs \<noteq> []"
  with True show ?thesis by (simp add: best_break_cases)
next
  case False
  then have "{b \<in> set bs. b \<le> ce} \<noteq> {}" by (auto simp: filter_empty_conv)
  then have "Max {b \<in> set bs. b \<le> ce} \<in> {b \<in> set bs. b \<le> ce}"
    by (intro Max_in) simp_all
  with False show ?thesis by (simp add: best_break_cases)
qed

lemma rfind_cases:
  "rfind s c i j = - 1 \<or>
   (\<exists>k. rfind s c i j = int k \<and> slice_bound (length s) i \<le> k \<and> k < slice_bound (length s) j \<and> s ! k = c)"
proof (cases "filter (\<lambda>k. s ! k = c) (rev [slice_bound (length s) i ..< slice_bound (length s) j])")
  case Nil
  then show ?thesis by (simp add: rfind_def)
next
  case (Cons k ks)
  then have "k \<in> set (filter (\<lambda>k. s ! k = c) (rev [slice_bound (length s) i ..< slice_bound (length s) j]))"
    by simp
  then have "slice_bound (length s) i \<le> k \<and> k < slice_bound (length s) j \<and> s ! k = c" by auto
  with Cons show ?thesis by (simp add: rfind_def)
qed

lemma choose_cut_bounds:
  assumes mc: "1 \<le> max_chars" and p0: "0 \<le> position" and pl: "position < int (length text)"
  shows "position < choose_cut text max_chars position \<and> choose_cut text max_chars position \<le> int (length text)"
proof -
  define ce where "ce = min (position + max_chars) (int (length text))"
  have ce: "position < ce" "ce \<le> int (length text)" using mc pl by (auto simp: ce_def)
  have pl': "position \<le> int (length text)" using pl by simp
  show ?thesis
  proof (cases "ce < int (length text)")
    case False
    then show ?thesis using ce by (simp add: choose_cut_def Let_def ce_def [symmetric])
  next
    case lt: True
    show ?thesis
    proof (cases "sentence_breaks text position ce \<noteq> []")
      case True
      then have "choose_cut text max_chars position = best_break ce (sentence_breaks text position ce)"
        using lt by (simp add: choose_cut_def Let_def ce_def [symmetric])
      with best_break_mem [OF True] sentence_breaks_mem [OF p0 pl' ce(2)]
      show ?thesis by metis
    next
      case sb: False
      show ?thesis
      proof (cases "para_breaks text position ce \<noteq> []")
        case True
        then have "choose_cut text max_chars position = best_break ce (para_breaks text position ce)"
          using lt sb by (simp add: choose_cut_def Let_def ce_def [symmetric])
        with best_break_mem [OF True] para_breaks_mem [OF p0 pl' ce(2)]
        show ?thesis by metis
      next
        case pb: False
        define sp where "sp = rfind text 32 (ce - 100) ce"
        have cc: "choose_cut text max_chars position = (if sp > position then sp + 1 else ce)"
          using lt sb pb by (simp add: choose_cut_def Let_def ce_def [symmetric] sp_def)
        have "sp = - 1 \<or> sp < ce"
          using rfind_cases [of "text" 32 "ce - 100" ce] ce p0
          by (auto simp: sp_def slice_bound_def)
        with cc ce p0 show ?thesis by auto
      qed
    qed
  qed
qed

lemma loop_cuts_exists:
  assumes mc: "1 \<le> max_chars"
  shows "0 \<le> position \<Longrightarrow>
         \<exists>cuts. loop_cuts text max_chars overlap position pe cuts
                \<and> int (length cuts) \<le> max 0 (int (length text) - position)"
proof (induction "nat (int (length text) - position)" arbitrary: position pe rule: less_induct)
  case less
  show ?case
  proof (cases "position < int (length text)")
    case False
    then have "loop_cuts text max_chars overlap position pe []" by simp
    then show ?thesis by (intro exI [of _ "[]"]) simp
  next
    case True
    define ce where "ce = choose_cut text max_chars position"
    have ce: "position < ce" "ce \<le> int (length text)"
      using choose_cut_bounds [OF mc less.prems True] by (simp_all add: ce_def)
    define c where "c = \<lparr>cut_start = position, cut_end = ce,
             cut_text = strip (py_slice text position ce),
             cut_context = pe, cut_first = (position = 0)\<rparr>"
    have "nat (int (length text) - ce) < nat (int (length text) - position)"
      using ce True by linarith
    moreover have "0 \<le> ce" using ce less.prems by simp
    ultimately obtain cs where cs: "loop_cuts text max_chars overlap ce (next_previous_end overlap (cut_text c)) cs"
      "int (length cs) \<le> max 0 (int (length text) - ce)"
      using less.hyps by blast
    have "loop_cuts text max_chars overlap position pe (c # cs)"
      using True cs(1) by (simp add: c_def ce_def)
    moreover have "int (length (c # cs)) \<le> max 0 (int (length text) - position)"
      using cs(2) ce by simp
    ultimately show ?thesis by blast
  qed
qed

lemma loop_cuts_spans:
  assumes mc: "1 \<le> max_chars"
  shows "0 \<le> position \<Longrightarrow> position \<le> int (length text) \<Longrightarrow>
         loop_cuts text max_chars overlap position pe cuts \<Longrightarrow>
         contiguous position cuts (int (length text))
         \<and> list_all (\<lambda>c. cut_start c < cut_end c) cuts
         \<and> concat (map (raw_span text) cuts) = drop (nat position) text
         \<and> list_all (\<lambda>c. cut_text c = strip (raw_span text c)) cuts"
proof (induction cuts arbitrary: position pe)
  case Nil
  then show ?case by simp
next
  case (Cons c cs)
  define ce where "ce = choose_cut text max_chars position"
  from Cons.prems have lt: "position < int (length text)"
    and c: "cut_start c = position" "cut_end c = ce" "cut_text c = strip (py_slice text position ce)"
    and rest: "loop_cuts text max_chars overlap ce (next_previous_end overlap (cut_text c)) cs"
    by (auto simp: ce_def)
  have ce: "position < ce" "ce \<le> int (length text)"
    using choose_cut_bounds [OF mc Cons.prems(1) lt] by (simp_all add: ce_def)
  have ce0: "0 \<le> ce" using ce Cons.prems(1) by simp
  note IH = Cons.IH [OF ce0 ce(2) rest]
  have raw: "raw_span text c = take (nat ce - nat position) (drop (nat position) text)"
    using c ce Cons.prems(1) by (simp add: raw_span_def py_slice_nonneg)
  have "drop (nat ce) text = drop (nat ce - nat position) (drop (nat position) text)"
    using ce Cons.prems(1) by simp
  then have "raw_span text c @ drop (nat ce) text = drop (nat position) text"
    by (simp only: raw append_take_drop_id)
  with IH c ce show ?case by (simp add: raw_span_def)
qed

lemma finditer_sentence_sorted: "sorted_wrt (<) (finditer_sentence i s)"
proof (induction i s rule: finditer_sentence.induct)
  case (1 i)
  then show ?case by simp
next
  case (2 i c cs)
  then show ?case
    using finditer_sentence_bounds [of _ "i + 1 + length (takeWhile isspace cs)" "dropWhile isspace cs"]
    by auto
qed

lemma finditer_quote_sorted: "sorted_wrt (<) (finditer_quote i s)"
proof (induction i s rule: finditer_quote.induct)
  case (1 i)
  then show ?case by simp
next
  case (2 i c)
  then show ?case by simp
next
  case (3 i c q cs)
  then show ?case
    using finditer_quote_bounds [of _ "i + 2 + length (takeWhile isspace cs)" "dropWhile isspace cs"]
    by auto
qed

lemma actual_positions_sorted:
  "sorted_wrt (<) ends \<Longrightarrow> sorted_wrt (<) (actual_positions position ce ends)"
  by (simp add: actual_positions_def sorted_wrt_filter sorted_wrt_map)

lemma hd_sorted_Min:
  fixes xs :: "int list"
  assumes "sorted_wrt (<) xs" "xs \<noteq> []"
  shows "hd xs = Min (set xs)"
proof (cases xs)
  case Nil
  with assms show ?thesis by simp
next
  case (Cons x ys)
  with assms have "\<forall>y \<in> set ys. x < y" by simp
  then have "Min (set (x # ys)) = x"
    by (intro Min_eqI) auto
  with Cons show ?thesis by simp
qed

lemmas chunker_eval =
  chunk_text_def chunk_loop.simps choose_cut_def sentence_breaks_def plain_breaks_def
  quoted_breaks_def para_breaks_def actual_positions_def search_text_def search_start_def
  in_window_def best_break_def py_slice_def py_slice_from_def slice_bound_def rfind_def
  strip_def next_previous_end_def terminal_def closing_quote_def isspace_def
  upto_last_newline_def segment_def raw_span_def Let_def

lemma scenario_loop:
  "chunk_loop (py ''Sentence one. Sentence two. Sentence three.'') 20 5 0 [] [] = Some
     [\<lparr>cut_start = 0, cut_end = 14, cut_text = py ''Sentence one.'', cut_context = [],
        cut_first = True\<rparr>,
      \<lparr>cut_start = 14, cut_end = 28, cut_text = py ''Sentence two.'', cut_context = py '' one.'',
        cut_first = False\<rparr>,
      \<lparr>cut_start = 28, cut_end = 43, cut_text = py ''Sentence three.'',
        cut_context = py '' two.'', cut_first = False\<rparr>]"
  by (simp add: chunker_eval)

lemma scenario_breaks:
  "sentence_breaks (py ''Sentence one. Sentence two. Sentence three.'') 0 20 = [14, 28]"
  by (simp add: chunker_eval)

lemma next_previous_end_positive_overlap:
  "1 \<le> overlap \<Longrightarrow>
   length (next_previous_end overlap chunk) = min (nat overlap) (length chunk)"
  by (auto simp: next_previous_end_def py_slice_from_def slice_bound_def Let_def min_def)

lemma next_previous_end_zero_overlap: "next_previous_end 0 chunk = chunk"
  by (simp add: next_previous_end_def py_slice_from_def slice_bound_def)

section \<open>Claims about TextChunker.chunk\_text\<close>

text \<open>
  C8. If \<open>max_chars\<close> is the whole-file sentinel \<open>-1\<close>, or the document is no longer than
  \<open>max_chars\<close> (the empty document included), \<open>chunk_text\<close> returns exactly one segment:
  the whole document, with \<open>is_first = True\<close> and an empty preceding context.
\<close>

theorem chunk_text_single_segment:
  "max_chars = - 1 \<or> int (length txt) \<le> max_chars \<Longrightarrow>
   chunk_text txt max_chars overlap = Some [(txt, [], True)]"
  by (auto simp: chunk_text_def)

theorem chunk_text_single_segment_witness:
  "((3000::int) = - 1 \<or> int (length ([]::pystr)) \<le> 3000)
   \<and> chunk_text [] 3000 300 = Some [([], [], True)]"
  using chunk_text_single_segment [of 3000 "[]" 300] by simp

text \<open>
  C3. For \<open>max_chars \<ge> 1\<close> the chunker terminates: whenever \<open>position\<close> is inside the
  document the chosen cut is strictly beyond it, the loop returns after at most
  \<open>len(text)\<close> iterations, no span it cuts ends at or before its start, and \<open>chunk_text\<close>
  itself returns.
\<close>

theorem chunk_text_terminates:
  assumes "1 \<le> max_chars"
  shows "(\<forall>position. 0 \<le> position \<and> position < int (length txt)
            \<longrightarrow> position < choose_cut txt max_chars position)
         \<and> (\<exists>cuts. chunk_loop txt max_chars overlap 0 [] [] = Some cuts
               \<and> length cuts \<le> length txt
               \<and> list_all (\<lambda>c. cut_start c < cut_end c) cuts)
         \<and> (\<exists>segments. chunk_text txt max_chars overlap = Some segments)"
proof -
  obtain cuts where cuts: "loop_cuts txt max_chars overlap 0 [] cuts"
    and len: "int (length cuts) \<le> max 0 (int (length txt) - 0)"
    using loop_cuts_exists [OF assms, of 0] by blast
  have ret: "chunk_loop txt max_chars overlap 0 [] [] = Some cuts"
    using loop_cuts_returns [OF cuts, of "[]"] by simp
  have "list_all (\<lambda>c. cut_start c < cut_end c) cuts"
    using loop_cuts_spans [OF assms _ _ cuts] by simp
  moreover have "length cuts \<le> length txt" using len by simp
  moreover have "\<exists>segments. chunk_text txt max_chars overlap = Some segments"
    by (simp add: chunk_text_def ret)
  ultimately show ?thesis
    using ret choose_cut_bounds [OF assms] by blast
qed

theorem chunk_text_terminates_witness:
  "(1::int) \<le> 20
   \<and> (\<exists>cuts. chunk_loop (py ''Sentence one. Sentence two. Sentence three.'') 20 5 0 [] [] = Some cuts
         \<and> length cuts = 3 \<and> length cuts \<le> length (py ''Sentence one. Sentence two. Sentence three.'')
         \<and> list_all (\<lambda>c. cut_start c < cut_end c) cuts)"
  using chunk_text_terminates [of 20 "py ''Sentence one. Sentence two. Sentence three.''" 5]
  unfolding scenario_loop by simp

text \<open>
  C2. For \<open>max_chars \<ge> 1\<close> the spans \<open>[position, chunk_end)\<close> of the loop are contiguous from
  \<open>0\<close> to \<open>len(text)\<close> and their raw slices concatenate to the document. The texts that
  \<open>chunk_text\<close> emits differ from these slices by the trimming only: when the document does
  not fit in one chunk, \<open>chunk_text\<close> returns one segment per span and the text of each is
  the \<open>strip\<close> of the raw slice of its span; when it fits, \<open>chunk_text\<close> returns the document
  itself.
\<close>

theorem chunk_text_coverage:
  assumes "1 \<le> max_chars"
  shows "\<exists>cuts. chunk_loop txt max_chars overlap 0 [] [] = Some cuts
           \<and> chunk_text txt max_chars overlap =
               Some (if int (length txt) \<le> max_chars then [(txt, [], True)] else map segment cuts)
           \<and> contiguous 0 cuts (int (length txt))
           \<and> concat (map (raw_span txt) cuts) = txt
           \<and> list_all (\<lambda>c. cut_text c = strip (raw_span txt c)) cuts
           \<and> (max_chars < int (length txt) \<longrightarrow>
                (\<exists>segs. chunk_text txt max_chars overlap = Some segs
                   \<and> length segs = length cuts
                   \<and> map fst segs = map (\<lambda>c. strip (raw_span txt c)) cuts))"
proof -
  obtain cuts where cuts: "loop_cuts txt max_chars overlap 0 [] cuts"
    using loop_cuts_exists [OF assms, of 0] by blast
  have ret: "chunk_loop txt max_chars overlap 0 [] [] = Some cuts"
    using loop_cuts_returns [OF cuts, of "[]"] by simp
  have ct: "chunk_text txt max_chars overlap =
               Some (if int (length txt) \<le> max_chars then [(txt, [], True)] else map segment cuts)"
    using assms by (simp add: chunk_text_def ret)
  note spans = loop_cuts_spans [OF assms _ _ cuts]
  have trimmed: "list_all (\<lambda>c. cut_text c = strip (raw_span txt c)) cuts"
    using spans by simp
  have "map fst (map segment cuts) = map cut_text cuts"
    by (simp add: segment_def)
  also have "\<dots> = map (\<lambda>c. strip (raw_span txt c)) cuts"
    using trimmed by (simp add: list_all_iff)
  finally have texts: "map fst (map segment cuts) = map (\<lambda>c. strip (raw_span txt c)) cuts" .
  have emitted: "max_chars < int (length txt) \<longrightarrow>
                (\<exists>segs. chunk_text txt max_chars overlap = Some segs
                   \<and> length segs = length cuts
                   \<and> map fst segs = map (\<lambda>c. strip (raw_span txt c)) cuts)"
    using ct texts by simp
  show ?thesis
    using ret ct spans emitted by (intro exI [of _ cuts]) simp
qed

lemma scenario_segments:
  "chunk_text (py ''Sentence one. Sentence two. Sentence three.'') 20 5 = Some
     [(py ''Sentence one.'', [], True),
      (py ''Sentence two.'', py '' one.'', False),
      (py ''Sentence three.'', py '' two.'', False)]"
  by (simp add: chunker_eval)

theorem chunk_text_coverage_witness:
  "(1::int) \<le> 20
   \<and> (20::int) < int (length (py ''Sentence one. Sentence two. Sentence three.''))
   \<and> (\<exists>cuts. chunk_loop (py ''Sentence one. Sentence two. Sentence three.'') 20 5 0 [] [] = Some cuts
         \<and> map cut_end cuts = [14, 28, 43]
         \<and> contiguous 0 cuts 43
         \<and> concat (map (raw_span (py ''Sentence one. Sentence two. Sentence three.'')) cuts)
             = py ''Sentence one. Sentence two. Sentence three.''
         \<and> map (\<lambda>c. strip (raw_span (py ''Sentence one. Sentence two. Sentence three.'') c)) cuts
             = [py ''Sentence one.'', py ''Sentence two.'', py ''Sentence three.''])"
  using chunk_text_coverage [of 20 "py ''Sentence one. Sentence two. Sentence three.''" 5]
  unfolding scenario_loop scenario_segments by simp

text \<open>
  C1. With \<open>overlap = 0\<close> the context handed to a later segment is not empty: the slice
  \<open>chunk_text[-0:]\<close> is the whole previous segment. On the document below, cut at 20
  characters with no overlap, the second and third segments carry the whole text of the
  segment before them.
\<close>

theorem chunk_text_zero_overlap_context:
  "chunk_text (py ''Sentence one. Sentence two. Sentence three.'') 20 0 = Some
     [(py ''Sentence one.'', [], True),
      (py ''Sentence two.'', py ''Sentence one.'', False),
      (py ''Sentence three.'', py ''Sentence two.'', False)]"
  by (simp add: chunker_eval)

text \<open>
  C6, as the code has it. When the search finds sentence candidates, the cut is the latest
  candidate that does not exceed the naive cut; when every candidate exceeds it, the cut
  is the first entry of the candidate list, which is the earliest match of the plain
  pattern if there is one, and the earliest match of the quoted pattern otherwise.
\<close>

theorem choose_cut_sentence_break:
  assumes "chunk_end = min (position + max_chars) (int (length txt))"
    and "chunk_end < int (length txt)"
    and "sentence_breaks txt position chunk_end \<noteq> []"
  shows "choose_cut txt max_chars position =
           (if \<exists>b \<in> set (sentence_breaks txt position chunk_end). b \<le> chunk_end
            then Max (set (filter (\<lambda>b. b \<le> chunk_end) (sentence_breaks txt position chunk_end)))
            else if plain_breaks txt position chunk_end \<noteq> []
            then Min (set (plain_breaks txt position chunk_end))
            else Min (set (quoted_breaks txt position chunk_end)))"
proof -
  let ?sb = "sentence_breaks txt position chunk_end"
  let ?pl = "plain_breaks txt position chunk_end"
  let ?qu = "quoted_breaks txt position chunk_end"
  have cc: "choose_cut txt max_chars position = best_break chunk_end ?sb"
    using assms(2,3) unfolding choose_cut_def Let_def assms(1) [symmetric] by simp
  have pl: "?pl \<noteq> [] \<Longrightarrow> hd ?sb = Min (set ?pl)"
    using hd_sorted_Min [OF actual_positions_sorted [OF finditer_sentence_sorted]]
    by (simp add: sentence_breaks_def plain_breaks_def)
  have qu: "?pl = [] \<Longrightarrow> hd ?sb = Min (set ?qu)"
    using hd_sorted_Min [OF actual_positions_sorted [OF finditer_quote_sorted]] assms(3)
    by (simp add: sentence_breaks_def quoted_breaks_def)
  have "(filter (\<lambda>b. b \<le> chunk_end) ?sb = []) = (\<not> (\<exists>b \<in> set ?sb. b \<le> chunk_end))"
    by (auto simp: filter_empty_conv)
  then show ?thesis
    using pl qu by (simp add: cc best_break_cases)
qed

theorem choose_cut_sentence_break_witness:
  "(20::int) = min (0 + 20) (int (length (py ''Sentence one. Sentence two. Sentence three.'')))
   \<and> 20 < int (length (py ''Sentence one. Sentence two. Sentence three.''))
   \<and> sentence_breaks (py ''Sentence one. Sentence two. Sentence three.'') 0 20 \<noteq> []
   \<and> choose_cut (py ''Sentence one. Sentence two. Sentence three.'') 20 0 = 14"
  using choose_cut_sentence_break
    [of 20 0 20 "py ''Sentence one. Sentence two. Sentence three.''"]
  unfolding scenario_breaks by simp

lemma quoted_example_breaks:
  "sentence_breaks [97, 46, 34, 32, 98, 46, 32, 99] 0 1 = [7, 4]"
  by (simp add: chunker_eval)

lemma quoted_example_cut: "choose_cut [97, 46, 34, 32, 98, 46, 32, 99] 1 0 = 7"
  by (simp add: chunker_eval)

lemma quoted_example_candidates:
  "spec_candidates [97, 46, 34, 32, 98, 46, 32, 99] 0 1 = [7, 4]"
  by (simp add: spec_candidates_def chunker_eval)

lemma finditer_sentence_none:
  "\<forall>c \<in> set s. \<not> terminal c \<Longrightarrow> finditer_sentence i s = []"
  by (induction s arbitrary: i) simp_all

lemma finditer_quote_none:
  "\<forall>c \<in> set s. \<not> terminal c \<Longrightarrow> finditer_quote i s = []"
  by (induction i s rule: finditer_quote.induct) simp_all

lemma finditer_para_none:
  "10 \<notin> set s \<Longrightarrow> finditer_para i s = []"
  by (induction s arbitrary: i) simp_all

lemma rfind_none:
  "(\<And>k. slice_bound (length s) i \<le> k \<Longrightarrow> k < slice_bound (length s) j \<Longrightarrow> s ! k \<noteq> c)
   \<Longrightarrow> rfind s c i j = - 1"
  by (simp add: rfind_def filter_empty_conv split: list.splits)

lemma far_search_text:
  "search_text (py ''a. '' @ replicate 400 98) 0 300 = replicate 300 98"
  by (simp add: search_text_def search_start_def py_slice_def slice_bound_def)

lemma far_breaks:
  "sentence_breaks (py ''a. '' @ replicate 400 98) 0 300 = []"
  "para_breaks (py ''a. '' @ replicate 400 98) 0 300 = []"
  unfolding sentence_breaks_def plain_breaks_def quoted_breaks_def para_breaks_def far_search_text
  by (simp_all add: finditer_sentence_none finditer_quote_none finditer_para_none
      actual_positions_def terminal_def)

lemma far_rfind: "rfind (py ''a. '' @ replicate 400 98) 32 (300 - 100) 300 = - 1"
proof (rule rfind_none)
  fix k
  assume "slice_bound (length (py ''a. '' @ replicate 400 98)) (300 - 100) \<le> k"
    and "k < slice_bound (length (py ''a. '' @ replicate 400 98)) 300"
  then have "200 \<le> k" "k < 300" by (simp_all add: slice_bound_def)
  then show "(py ''a. '' @ replicate 400 98) ! k \<noteq> 32"
    by (simp add: nth_append)
qed

lemma far_cut: "choose_cut (py ''a. '' @ replicate 400 98) 300 0 = 300"
proof -
  have "min (0 + 300) (int (length (py ''a. '' @ replicate 400 98))) = 300" by simp
  then show ?thesis
    unfolding choose_cut_def Let_def by (simp only: far_breaks far_rfind) simp
qed

lemma far_candidates: "spec_candidates (py ''a. '' @ replicate 400 98) 0 300 = [3]"
proof -
  have r: "\<forall>c \<in> set (replicate 400 (98::nat)). \<not> terminal c" by (simp add: terminal_def)
  have s: "finditer_sentence 0 (py ''a. '' @ replicate 400 98) = [3]"
    by (simp add: terminal_def isspace_def takeWhile_replicate dropWhile_replicate
        finditer_sentence_none [OF r])
  have q: "finditer_quote 0 (py ''a. '' @ replicate 400 98) = []"
  proof -
    have "finditer_quote 0 (py ''a. '' @ replicate 400 98)
        = finditer_quote 0 (97 # 46 # 32 # 98 # replicate 399 98)"
      by (simp add: replicate_Suc [symmetric] del: replicate_Suc) 
    also have "\<dots> = finditer_quote 3 (98 # replicate 399 98)"
      by (simp add: terminal_def closing_quote_def numeral_3_eq_3)
    also have "\<dots> = []"
      by (rule finditer_quote_none) (simp add: terminal_def)
    finally show ?thesis .
  qed
  show ?thesis unfolding spec_candidates_def s q by (simp add: in_window_def)
qed

text \<open>
  C6, as the specification words it, fails in two ways. On the eight characters
  \<open>a." b. c\<close> cut with \<open>max_chars = 1\<close> the candidates are \<open>[7, 4]\<close> (plain pattern first), both
  exceed the naive cut \<open>1\<close>, and the code cuts at \<open>7\<close>, not at the earliest candidate \<open>4\<close>.
  On \<open>a. \<close> followed by 400 times \<open>b\<close>, cut with \<open>max_chars = 300\<close>, the candidate \<open>3\<close> lies
  strictly after the segment start and before the naive cut, yet the search starts at
  \<open>100\<close>, finds no candidate, and the code cuts at \<open>300\<close>.
\<close>

theorem choose_cut_not_earliest_candidate:
  "sentence_breaks [97, 46, 34, 32, 98, 46, 32, 99] 0 1 \<noteq> []
   \<and> spec_cut 1 (sentence_breaks [97, 46, 34, 32, 98, 46, 32, 99] 0 1) = 4
   \<and> choose_cut [97, 46, 34, 32, 98, 46, 32, 99] 1 0 = 7
   \<and> spec_candidates [97, 46, 34, 32, 98, 46, 32, 99] 0 1 = [7, 4]
   \<and> spec_candidates (py ''a. '' @ replicate 400 98) 0 300 = [3]
   \<and> spec_cut 300 (spec_candidates (py ''a. '' @ replicate 400 98) 0 300) = 3
   \<and> sentence_breaks (py ''a. '' @ replicate 400 98) 0 300 = []
   \<and> choose_cut (py ''a. '' @ replicate 400 98) 300 0 = 300"
  unfolding far_candidates far_breaks far_cut quoted_example_candidates
  by (simp add: quoted_example_breaks quoted_example_cut spec_cut_def)

section \<open>Paragraph splitting and deduplication\<close>

lemma split_blank_nonempty: "split_blank s \<noteq> []"
  by (induction s rule: split_blank.induct) (auto split: list.splits)

lemma join_Cons_Cons: "ps \<noteq> [] \<Longrightarrow> join sep (p # ps) = p @ sep @ join sep ps"
  by (cases ps) simp_all

lemma join_head: "join sep ((c # p) # ps) = c # join sep (p # ps)"
  by (cases ps) simp_all

lemma join_split_blank: "join [10, 10] (split_blank s) = s"
proof (induction s rule: split_blank.induct)
  case 1
  then show ?case by simp
next
  case (2 c)
  then show ?case by simp
next
  case (3 c d cs)
  show ?case
  proof (cases "c = 10 \<and> d = 10")
    case True
    with 3 show ?thesis by (simp add: join_Cons_Cons split_blank_nonempty)
  next
    case False
    obtain p ps where pps: "split_blank (d # cs) = p # ps"
      using split_blank_nonempty [of "d # cs"] by (cases "split_blank (d # cs)") auto
    with 3 False show ?thesis by (auto simp: join_head)
  qed
qed

lemma split_blank_first:
  "split_blank (d # cs) = p # ps \<Longrightarrow> p = [] \<or> hd p = d"
  by (cases cs) (auto split: if_splits list.splits)

lemma no_blank_Cons: "no_blank (c # p) \<longleftrightarrow> (p = [] \<or> \<not> (c = 10 \<and> hd p = 10)) \<and> no_blank p"
  by (cases p) auto

lemma split_blank_no_blank: "p \<in> set (split_blank s) \<Longrightarrow> no_blank p"
proof (induction s arbitrary: p rule: split_blank.induct)
  case 1
  then show ?case by simp
next
  case (2 c)
  then show ?case by simp
next
  case (3 c d cs)
  show ?case
  proof (cases "c = 10 \<and> d = 10")
    case True
    with 3 show ?thesis by auto
  next
    case False
    obtain q qs where q: "split_blank (d # cs) = q # qs"
      using split_blank_nonempty [of "d # cs"] by (cases "split_blank (d # cs)") auto
    from 3(2) [OF False] q have IH: "no_blank q" "\<And>r. r \<in> set qs \<Longrightarrow> no_blank r" by simp_all
    from "3.prems" False q have "p = c # q \<or> p \<in> set qs" by simp
    then show ?thesis
    proof
      assume "p = c # q"
      with IH(1) split_blank_first [OF q] False show ?thesis
        by (auto simp: no_blank_Cons)
    next
      assume "p \<in> set qs"
      with IH(2) show ?thesis by simp
    qed
  qed
qed

lemma no_blank_append: "no_blank (a @ b) \<Longrightarrow> no_blank a \<and> no_blank b"
proof (induction a rule: no_blank.induct)
  case 1
  then show ?case by simp
next
  case (2 c)
  then show ?case by (cases b) auto
next
  case (3 c d cs)
  then show ?case by auto
qed

lemma strip_infix: "\<exists>a b. s = a @ strip s @ b"
proof -
  let ?d = "dropWhile isspace s"
  have "rev (takeWhile isspace (rev ?d) @ dropWhile isspace (rev ?d)) = ?d"
    by (simp only: takeWhile_dropWhile_id rev_rev_ident)
  then have "strip s @ rev (takeWhile isspace (rev ?d)) = ?d"
    by (simp only: rev_append strip_def)
  moreover have "s = takeWhile isspace s @ ?d" by simp
  ultimately show ?thesis by metis
qed

lemma strip_no_blank: "no_blank s \<Longrightarrow> no_blank (strip s)"
  using strip_infix [of s] no_blank_append by metis

lemma strip_ends:
  "strip s = [] \<or> (\<not> isspace (hd (strip s)) \<and> \<not> isspace (last (strip s)))"
proof (cases "strip s = []")
  case True
  then show ?thesis by simp
next
  case False
  let ?d = "dropWhile isspace s"
  let ?e = "dropWhile isspace (rev ?d)"
  have e: "?e \<noteq> []" using False by (simp add: strip_def)
  then have he: "\<not> isspace (hd ?e)" by (rule hd_dropWhile)
  have d: "?d \<noteq> []"
  proof
    assume "?d = []"
    then have "?e = []" by (simp only: rev.simps dropWhile.simps)
    with e show False by (simp only: not_True_eq_False simp_thms)
  qed
  then have hd: "\<not> isspace (hd ?d)" by (rule hd_dropWhile)
  have "last (strip s) = hd ?e" using e by (simp add: strip_def last_rev)
  moreover have "hd (strip s) = last ?e" using e by (simp add: strip_def hd_rev)
  moreover have "last ?e = last (rev ?d)"
    using e by (metis append_is_Nil_conv last_appendR takeWhile_dropWhile_id)
  moreover have "last (rev ?d) = hd ?d" using d by (simp add: last_rev)
  ultimately show ?thesis using he hd by simp
qed

lemma strip_fixed:
  assumes "s = [] \<or> (\<not> isspace (hd s) \<and> \<not> isspace (last s))"
  shows "strip s = s"
proof (cases "s = []")
  case True
  then show ?thesis by (simp add: strip_def)
next
  case False
  with assms have h: "\<not> isspace (hd s)" and l: "\<not> isspace (last s)" by simp_all
  have "dropWhile isspace s = s" using False h by (cases s) simp_all
  moreover have "dropWhile isspace (rev s) = rev s"
    using False l by (cases "rev s") (simp_all add: last_rev [symmetric] hd_rev)
  ultimately show ?thesis by (simp add: strip_def)
qed

lemma strip_idem: "strip (strip s) = strip s"
  by (rule strip_fixed) (rule strip_ends)

lemma isspace_newline: "isspace 10"
  by (simp add: isspace_def)

lemma split_blank_single: "no_blank k \<Longrightarrow> split_blank k = [k]"
proof (induction k rule: split_blank.induct)
  case 1
  then show ?case by simp
next
  case (2 c)
  then show ?case by simp
next
  case (3 c d cs)
  then show ?case by auto
qed

lemma split_blank_append:
  "no_blank k \<Longrightarrow> k = [] \<or> last k \<noteq> 10 \<Longrightarrow>
   split_blank (k @ 10 # 10 # rest) = k # split_blank rest"
proof (induction k)
  case Nil
  then show ?case by simp
next
  case (Cons c k)
  show ?case
  proof (cases k)
    case Nil
    with Cons.prems have "c \<noteq> 10" by simp
    with Nil show ?thesis by simp
  next
    case (Cons d k')
    with Cons.prems have nb: "\<not> (c = 10 \<and> d = 10)" "no_blank k" "k = [] \<or> last k \<noteq> 10"
      by auto
    from Cons.IH [OF nb(2,3)] nb(1) Cons show ?thesis by simp
  qed
qed

lemma paragraph_ok_last: "paragraph_ok k \<Longrightarrow> last k \<noteq> 10"
  using strip_ends [of k] isspace_newline by (auto simp: paragraph_ok_def)

lemma split_blank_join:
  "list_all paragraph_ok ks \<Longrightarrow> ks \<noteq> [] \<Longrightarrow> split_blank (join [10, 10] ks) = ks"
proof (induction ks)
  case Nil
  then show ?case by simp
next
  case (Cons k ks)
  then have k: "paragraph_ok k" by simp
  show ?case
  proof (cases "ks = []")
    case True
    with k show ?thesis by (simp add: split_blank_single paragraph_ok_def)
  next
    case False
    with Cons have IH: "split_blank (join [10, 10] ks) = ks" by simp
    have "join [10, 10] (k # ks) = k @ 10 # 10 # join [10, 10] ks"
      using False by (simp add: join_Cons_Cons)
    with IH k paragraph_ok_last [OF k] show ?thesis
      by (simp add: split_blank_append paragraph_ok_def)
  qed
qed

lemma dedup_loop_distinct:
  "distinct (map (normalize_paragraph lower) (kept_paragraphs ps)) \<Longrightarrow>
   normalize_paragraph lower ` set (kept_paragraphs ps) \<inter> seen = {} \<Longrightarrow>
   dedup_loop lower ps seen acc = acc @ kept_paragraphs ps"
proof (induction ps arbitrary: seen acc)
  case Nil
  then show ?case by (simp add: kept_paragraphs_def)
next
  case (Cons p ps)
  show ?case
  proof (cases "strip p = []")
    case True
    with Cons show ?thesis by (simp add: kept_paragraphs_def)
  next
    case False
    let ?n = "normalize_paragraph lower (strip p)"
    from False Cons.prems have notin: "?n \<notin> seen"
      and d: "distinct (map (normalize_paragraph lower) (kept_paragraphs ps))"
      and fresh: "?n \<notin> normalize_paragraph lower ` set (kept_paragraphs ps)"
      and disj: "normalize_paragraph lower ` set (kept_paragraphs ps) \<inter> seen = {}"
      by (auto simp: kept_paragraphs_def)
    from fresh disj
    have "normalize_paragraph lower ` set (kept_paragraphs ps) \<inter> insert ?n seen = {}" by auto
    from Cons.IH [OF d this] False notin show ?thesis by (simp add: kept_paragraphs_def)
  qed
qed

lemma dedup_loop_result:
  "\<exists>kept. dedup_loop lower ps seen acc = acc @ kept
      \<and> set kept \<subseteq> set (kept_paragraphs ps)
      \<and> distinct (map (normalize_paragraph lower) kept)
      \<and> normalize_paragraph lower ` set kept \<inter> seen = {}"
proof (induction ps arbitrary: seen acc)
  case Nil
  then show ?case by simp
next
  case (Cons p ps)
  let ?n = "normalize_paragraph lower (strip p)"
  show ?case
  proof (cases "strip p = [] \<or> ?n \<in> seen")
    case True
    then have "dedup_loop lower (p # ps) seen acc = dedup_loop lower ps seen acc" by auto
    moreover have "set (kept_paragraphs ps) \<subseteq> set (kept_paragraphs (p # ps))"
      by (auto simp: kept_paragraphs_def)
    ultimately show ?thesis using Cons [of seen acc] by fastforce
  next
    case False
    then have step: "dedup_loop lower (p # ps) seen acc =
        dedup_loop lower ps (insert ?n seen) (acc @ [strip p])" by simp
    obtain kept where kept: "dedup_loop lower ps (insert ?n seen) (acc @ [strip p]) = (acc @ [strip p]) @ kept"
      "set kept \<subseteq> set (kept_paragraphs ps)"
      "distinct (map (normalize_paragraph lower) kept)"
      "normalize_paragraph lower ` set kept \<inter> insert ?n seen = {}"
      using Cons [of "insert ?n seen" "acc @ [strip p]"] by blast
    have "dedup_loop lower (p # ps) seen acc = acc @ (strip p # kept)"
      using step kept(1) by simp
    moreover have "set (strip p # kept) \<subseteq> set (kept_paragraphs (p # ps))"
      using kept(2) False by (auto simp: kept_paragraphs_def)
    moreover have "distinct (map (normalize_paragraph lower) (strip p # kept))"
      using kept(3,4) by auto
    moreover have "normalize_paragraph lower ` set (strip p # kept) \<inter> seen = {}"
      using kept(4) False by auto
    ultimately show ?thesis by blast
  qed
qed

lemma kept_paragraphs_ok:
  "list_all no_blank ps \<Longrightarrow> k \<in> set (kept_paragraphs ps) \<Longrightarrow> paragraph_ok k"
  by (auto simp: kept_paragraphs_def paragraph_ok_def list_all_iff strip_idem strip_no_blank)

lemma kept_paragraphs_fixed:
  "list_all paragraph_ok ks \<Longrightarrow> kept_paragraphs ks = ks"
  by (induction ks) (auto simp: kept_paragraphs_def paragraph_ok_def)

lemma deduplicate_idempotent:
  "deduplicate_paragraphs lower (deduplicate_paragraphs lower s) = deduplicate_paragraphs lower s"
proof -
  obtain kept where kept: "dedup_loop lower (split_blank s) {} [] = kept"
    "set kept \<subseteq> set (kept_paragraphs (split_blank s))"
    "distinct (map (normalize_paragraph lower) kept)"
    using dedup_loop_result [of lower "split_blank s" "{}" "[]"] by auto
  have "list_all no_blank (split_blank s)"
    by (simp add: list_all_iff split_blank_no_blank)
  then have "\<And>k. k \<in> set kept \<Longrightarrow> paragraph_ok k"
    using kept(2) kept_paragraphs_ok by blast
  then have ok: "list_all paragraph_ok kept"
    by (simp add: list_all_iff)
  show ?thesis
  proof (cases "kept = []")
    case True
    with kept(1) show ?thesis by (simp add: deduplicate_paragraphs_def strip_def)
  next
    case False
    have "dedup_loop lower kept {} [] = [] @ kept_paragraphs kept"
      using kept(3) by (intro dedup_loop_distinct) (simp_all add: kept_paragraphs_fixed [OF ok])
    with kept(1) ok False show ?thesis
      by (simp add: deduplicate_paragraphs_def split_blank_join kept_paragraphs_fixed)
  qed
qed

lemmas dedup_eval =
  deduplicate_paragraphs_def paragraph_forms_def normalize_paragraph_def ascii_lower_def
  kept_paragraphs_def strip_def isspace_def

lemma kept_paragraphs_stripped:
  "list_all (\<lambda>para. para \<noteq> [] \<and> strip para = para) ps \<Longrightarrow> kept_paragraphs ps = ps"
  by (induction ps) (simp_all add: kept_paragraphs_def)

text \<open>
  C7, as the code has it. Deduplication is idempotent. A text in which no two paragraphs
  share a normalized form comes back as its paragraphs, each stripped of surrounding
  whitespace and the blank one left out, joined by blank lines; it comes back unchanged
  when in addition every paragraph is non-empty and has no surrounding whitespace.
\<close>

theorem deduplicate_paragraphs_idempotent:
  "deduplicate_paragraphs lower (deduplicate_paragraphs lower txt) = deduplicate_paragraphs lower txt
   \<and> (distinct (paragraph_forms lower txt) \<longrightarrow>
        deduplicate_paragraphs lower txt = join [10, 10] (kept_paragraphs (split_blank txt)))
   \<and> (distinct (paragraph_forms lower txt)
        \<and> list_all (\<lambda>para. para \<noteq> [] \<and> strip para = para) (split_blank txt) \<longrightarrow>
        deduplicate_paragraphs lower txt = txt)"
proof -
  have general: "deduplicate_paragraphs lower txt = join [10, 10] (kept_paragraphs (split_blank txt))"
    if d: "distinct (paragraph_forms lower txt)"
  proof -
    have "map (normalize_paragraph lower) (map strip (split_blank txt)) = paragraph_forms lower txt"
      by (simp add: paragraph_forms_def)
    with d have "distinct (map (normalize_paragraph lower) (map strip (split_blank txt)))"
      by simp
    then have "distinct (map (normalize_paragraph lower) (kept_paragraphs (split_blank txt)))"
      unfolding kept_paragraphs_def by (rule distinct_map_filter)
    then have "dedup_loop lower (split_blank txt) {} [] = [] @ kept_paragraphs (split_blank txt)"
      by (intro dedup_loop_distinct) simp_all
    then show ?thesis by (simp add: deduplicate_paragraphs_def)
  qed
  have fixed: "deduplicate_paragraphs lower txt = txt"
    if d: "distinct (paragraph_forms lower txt)"
      and s: "list_all (\<lambda>para. para \<noteq> [] \<and> strip para = para) (split_blank txt)"
  proof -
    from s have "kept_paragraphs (split_blank txt) = split_blank txt"
      by (rule kept_paragraphs_stripped)
    with general [OF d] show ?thesis by (simp add: join_split_blank)
  qed
  show ?thesis using deduplicate_idempotent general fixed by blast
qed

lemma two_paragraphs_split:
  "split_blank (py ''The city was quiet.'' @ [10, 10] @ py ''It rained.'')
     = [py ''The city was quiet.'', py ''It rained.'']"
  by simp

theorem deduplicate_paragraphs_idempotent_witness:
  "distinct (paragraph_forms ascii_lower (py ''The city was quiet.'' @ [10, 10] @ py ''It rained.''))
   \<and> list_all (\<lambda>para. para \<noteq> [] \<and> strip para = para)
         (split_blank (py ''The city was quiet.'' @ [10, 10] @ py ''It rained.''))
   \<and> deduplicate_paragraphs ascii_lower (py ''The city was quiet.'' @ [10, 10] @ py ''It rained.'')
       = py ''The city was quiet.'' @ [10, 10] @ py ''It rained.''
   \<and> deduplicate_paragraphs ascii_lower
         (deduplicate_paragraphs ascii_lower (py ''The city was quiet.'' @ [10, 10] @ py ''It rained.''))
       = deduplicate_paragraphs ascii_lower (py ''The city was quiet.'' @ [10, 10] @ py ''It rained.'')"
proof -
  have d: "distinct (paragraph_forms ascii_lower (py ''The city was quiet.'' @ [10, 10] @ py ''It rained.''))"
    unfolding paragraph_forms_def two_paragraphs_split by (simp add: dedup_eval)
  have s: "list_all (\<lambda>para. para \<noteq> [] \<and> strip para = para)
         (split_blank (py ''The city was quiet.'' @ [10, 10] @ py ''It rained.''))"
    unfolding two_paragraphs_split by (simp add: dedup_eval)
  show ?thesis
    using d s deduplicate_paragraphs_idempotent
      [of ascii_lower "py ''The city was quiet.'' @ [10, 10] @ py ''It rained.''"]
    by blast
qed

text \<open>
  C7, as the specification words it, fails on the two characters \<open>" a"\<close>: there is one
  paragraph, so no two share a form, and the result is \<open>"a"\<close>.
\<close>

theorem deduplicate_paragraphs_strips:
  "distinct (paragraph_forms ascii_lower [32, 97])
   \<and> deduplicate_paragraphs ascii_lower [32, 97] = [97]
   \<and> deduplicate_paragraphs ascii_lower [32, 97] \<noteq> [32, 97]"
  by (simp add: dedup_eval)

lemma city_scenario:
  "deduplicate_paragraphs ascii_lower
     (py ''Dusk fell.'' @ [10, 10] @ py ''The city was quiet.'' @ [10, 10]
        @ py ''The city was quiet.'' @ [10, 10] @ py ''Dawn came.'')
   = py ''Dusk fell.'' @ [10, 10] @ py ''The city was quiet.'' @ [10, 10] @ py ''Dawn came.''"
  by (simp add: dedup_eval)

section \<open>What one call of the service does to the processor\<close>

lemma chat_attempt_state:
  "snd (chat_attempt w request st) = await_point w (st\<lparr>requests := requests st @ [request]\<rparr>)"
  by (simp add: chat_attempt_def Let_def split: sum.splits)

lemma chat_attempt_failure:
  "client_chat w (length (requests st)) request = Inl e \<Longrightarrow>
   chat_attempt w request st = (Inl e, await_point w (st\<lparr>requests := requests st @ [request]\<rparr>))"
  by (simp add: chat_attempt_def Let_def)

lemma process_with_llm_cases:
  "process_with_llm w txt system_prompt user_prompt model temperature st =
     (case chat_attempt w \<lparr>req_model = model, req_system = system_prompt, req_user = user_prompt,
              req_temperature = temperature\<rparr> st of
        (Inr result, st') \<Rightarrow> Returned result st'
      | (Inl e, st') \<Rightarrow>
          Returned (placeholder (failure_tag (class_of e)) txt)
            (emit (processing_error
               (if class_of e = TimeoutError then
                  [9201, 65039] @ py '' Timeout: Ollama took too long to respond (>2 min). Check if model ''
                    @ [39] @ model @ [39] @ py '' is loaded.''
                else if class_of e = ConnectionError then
                  [128268] @ py '' Connection Error: Cannot connect to Ollama. Is it running?''
                    @ [10] @ py ''Details: '' @ str_of e
                else if class_of e = ResponseError then [10060] @ py '' Ollama Error: '' @ str_of e
                else [10060] @ py '' Unexpected Error: '' @ class_name (class_of e) @ py '': ''
                    @ str_of e)) st'))"
  by (simp add: process_with_llm_def failure_tag_def split: prod.splits sum.splits)

lemma process_with_llm_effect:
  "\<exists>result st'. process_with_llm w txt system_prompt user_prompt model temperature st = Returned result st'
     \<and> requests st' = requests st @ [\<lparr>req_model = model, req_system = system_prompt,
                                       req_user = user_prompt, req_temperature = temperature\<rparr>]
     \<and> awaits st' = awaits st + 1
     \<and> is_running st' = (is_running st \<and> \<not> stop_during w (awaits st))
     \<and> output_base_path st' = output_base_path st
     \<and> write_attempts st' = write_attempts st
     \<and> written st' = written st"
proof -
  let ?req = "\<lparr>req_model = model, req_system = system_prompt, req_user = user_prompt,
              req_temperature = temperature\<rparr>"
  obtain r st1 where c: "chat_attempt w ?req st = (r, st1)" by (cases "chat_attempt w ?req st")
  then have st1: "st1 = await_point w (st\<lparr>requests := requests st @ [?req]\<rparr>)"
    using chat_attempt_state [of w ?req st] by simp
  show ?thesis
    by (cases r) (simp_all add: process_with_llm_cases c st1 await_point_def emit_def)
qed

lemma save_step_control:
  "is_running (save_step w content name st) = is_running st
   \<and> awaits (save_step w content name st) = awaits st
   \<and> requests (save_step w content name st) = requests st
   \<and> output_base_path (save_step w content name st) = output_base_path st"
  by (simp add: save_step_def emit_def split: option.splits)

lemma save_step_attempts:
  "write_attempts (save_step w content name st) =
     (case generate_step_filename w st name of
        None \<Rightarrow> write_attempts st
      | Some f \<Rightarrow> if f = [] then write_attempts st else write_attempts st + 1)"
  by (simp add: save_step_def emit_def split: option.splits)

lemma process_with_llm_returned:
  "\<exists>result st'. process_with_llm w chunk system_prompt user_prompt model temperature st = Returned result st'"
  using process_with_llm_effect by blast

lemma process_with_llm_failure:
  assumes "fst (chat_attempt w
             \<lparr>req_model = model, req_system = system_prompt, req_user = user_prompt,
              req_temperature = temperature\<rparr> st) = Inl e"
  shows "\<exists>st' message.
           process_with_llm w chunk system_prompt user_prompt model temperature st
             = Returned (py ''['' @ failure_tag (class_of e) @ py '': '' @ take 100 chunk @ py ''...]'') st'
           \<and> emitted st' = emitted st @ [processing_error message]"
proof -
  obtain st1 where "chat_attempt w
             \<lparr>req_model = model, req_system = system_prompt, req_user = user_prompt,
              req_temperature = temperature\<rparr> st = (Inl e, st1)"
    using assms by (metis prod.collapse)
  moreover from this have "emitted st1 = emitted st"
    using chat_attempt_state [of w "\<lparr>req_model = model, req_system = system_prompt,
        req_user = user_prompt, req_temperature = temperature\<rparr>" st]
    by (simp add: await_point_def)
  ultimately show ?thesis
    by (simp add: process_with_llm_cases placeholder_def emit_def)
qed

section \<open>The chunk loops when nobody presses stop\<close>

lemma await_point_never_stopped:
  "never_stopped w \<Longrightarrow> is_running (await_point w st) = is_running st"
  by (simp add: await_point_def never_stopped_def)

lemma process_with_llm_always_fails:
  assumes "always_fails w e"
    and "process_with_llm w chunk sp up m t st = Returned r st1"
  shows "r = placeholder (failure_tag (class_of e)) chunk"
proof -
  have "chat_attempt w \<lparr>req_model = m, req_system = sp, req_user = up, req_temperature = t\<rparr> st
      = (Inl e, await_point w (st\<lparr>requests := requests st @
           [\<lparr>req_model = m, req_system = sp, req_user = up, req_temperature = t\<rparr>]\<rparr>))"
    using assms(1) by (intro chat_attempt_failure) (simp add: always_fails_def)
  with assms(2) show ?thesis by (simp add: process_with_llm_cases)
qed

lemma translation_loop_all:
  assumes ns: "never_stopped w"
  shows "is_running st \<Longrightarrow> list_all (prompts_ready w ops) chunks \<Longrightarrow>
         \<exists>parts st'. translation_loop w ops total_chunks i chunks parts0 last_translation st = Returned parts st'
            \<and> length parts = length parts0 + length chunks
            \<and> length (requests st') = length (requests st) + length chunks
            \<and> is_running st'
            \<and> (always_fails w e \<longrightarrow>
                 parts = parts0 @ map (\<lambda>seg. placeholder (failure_tag (class_of e)) (fst seg)) chunks)"
proof (induction chunks arbitrary: i parts0 last_translation st)
  case Nil
  then show ?case by simp
next
  case (Cons c chunks)
  obtain chunk ctx is_first where c: "c = (chunk, ctx, is_first)" by (cases c)
  from Cons.prems(2) obtain sp up where p: "translation_prompts w ops chunk ctx is_first = Inr (sp, up)"
    by (auto simp: c prompts_ready_def translation_request_def split: sum.splits)
  obtain r st1 where r: "process_with_llm w chunk sp up (model_of ops) translation_temperature st = Returned r st1"
    and st1: "length (requests st1) = length (requests st) + 1" "is_running st1"
    using process_with_llm_effect [of w chunk sp up "model_of ops" translation_temperature st] Cons.prems ns
    by (auto simp: never_stopped_def)
  define st2 where "st2 = await_point w
                       (emit (processing_progress (i + 1) total_chunks (translation_phase ops))
                          (save_step w (join [10, 10] (parts0 @ [r])) (progress_step_name ops) st1))"
  have st2: "is_running st2" "length (requests st2) = length (requests st) + 1"
    using st1 ns save_step_control [of w _ _ st1]
    by (simp_all add: st2_def await_point_def emit_def never_stopped_def)
  have step: "translation_loop w ops total_chunks i (c # chunks) parts0 last_translation st =
      translation_loop w ops total_chunks (i + 1) chunks (parts0 @ [r])
        (next_last_translation (overlap_of ops) r) st2"
    using Cons.prems p r by (simp add: c st2_def)
  have rest: "list_all (prompts_ready w ops) chunks" using Cons.prems(2) by simp
  have fail: "always_fails w e \<Longrightarrow> r = placeholder (failure_tag (class_of e)) (fst c)"
    using process_with_llm_always_fails [OF _ r] by (simp add: c)
  from Cons.IH [OF st2(1) rest, of "i + 1" "parts0 @ [r]"
      "next_last_translation (overlap_of ops) r"]
  show ?case unfolding step using st2(2) fail by auto
qed

lemma combined_loop_all:
  assumes ns: "never_stopped w"
  shows "is_running st \<Longrightarrow> list_all (template_ready w template) chunks \<Longrightarrow>
         \<exists>parts st'. combined_loop w ops sp template task_count total_chunks i chunks parts0 st = Returned parts st'
            \<and> length parts = length parts0 + length chunks
            \<and> length (requests st') = length (requests st) + length chunks
            \<and> is_running st'
            \<and> (always_fails w e \<longrightarrow>
                 parts = parts0 @ map (\<lambda>seg. placeholder (failure_tag (class_of e)) (fst seg)) chunks)"
proof (induction chunks arbitrary: i parts0 st)
  case Nil
  then show ?case by simp
next
  case (Cons c chunks)
  obtain chunk ctx is_first where c: "c = (chunk, ctx, is_first)" by (cases c)
  from Cons.prems(2) obtain up where p: "str_format w template [(py ''text'', chunk)] = Inr up"
    by (auto simp: c template_ready_def split: sum.splits)
  obtain r st1 where r: "process_with_llm w chunk sp up (model_of ops) (temperature_of ops) st = Returned r st1"
    and st1: "length (requests st1) = length (requests st) + 1" "is_running st1"
    using process_with_llm_effect [of w chunk sp up "model_of ops" "temperature_of ops" st] Cons.prems ns
    by (auto simp: never_stopped_def)
  define st2 where "st2 = await_point w
                       (emit (processing_progress (i + 1) total_chunks (combined_phase ops task_count))
                          st1)"
  have st2: "is_running st2" "length (requests st2) = length (requests st) + 1"
    using st1 ns by (simp_all add: st2_def await_point_def emit_def never_stopped_def)
  have step: "combined_loop w ops sp template task_count total_chunks i (c # chunks) parts0 st =
      combined_loop w ops sp template task_count total_chunks (i + 1) chunks (parts0 @ [r]) st2"
    using Cons.prems p r by (simp add: c st2_def)
  have rest: "list_all (template_ready w template) chunks" using Cons.prems(2) by simp
  have fail: "always_fails w e \<Longrightarrow> r = placeholder (failure_tag (class_of e)) (fst c)"
    using process_with_llm_always_fails [OF _ r] by (simp add: c)
  from Cons.IH [OF st2(1) rest, of "i + 1" "parts0 @ [r]"]
  show ?case unfolding step using st2(2) fail by auto
qed

section \<open>Runs that differ in the replies of the service\<close>

lemma same_control_refl: "same_control a a"
  by (simp add: same_control_def)

lemma same_control_emit: "same_control a b \<Longrightarrow> same_control (emit s a) (emit s' b)"
  by (simp add: same_control_def emit_def)

lemma same_control_await:
  "same_control a b \<Longrightarrow> stop_during w' = stop_during w \<Longrightarrow>
   same_control (await_point w a) (await_point w' b)"
  by (simp add: same_control_def await_point_def)

lemma same_control_save_step:
  assumes "same_control a b" "os_splitext w' = os_splitext w"
  shows "same_control (save_step w content name a) (save_step w' content' name b)"
proof -
  have "output_base_path a = output_base_path b"
    using assms(1) by (simp add: same_control_def)
  then have g: "generate_step_filename w' b name = generate_step_filename w a name"
    by (simp only: generate_step_filename_def assms(2))
  show ?thesis
    using assms(1) save_step_control [of w content name a] save_step_control [of "w'" "content'" name b]
      save_step_attempts [of w content name a] save_step_attempts [of "w'" "content'" name b]
    by (simp add: same_control_def g split: option.splits)
qed

lemma same_control_process_with_llm:
  assumes "same_control a b" "stop_during w' = stop_during w"
  shows "same_outcome (process_with_llm w txt sp up m t a) (process_with_llm w' txt' sp up m t b)"
proof -
  obtain r a' where a: "process_with_llm w txt sp up m t a = Returned r a'"
    "requests a' = requests a @ [\<lparr>req_model = m, req_system = sp, req_user = up, req_temperature = t\<rparr>]"
    "awaits a' = awaits a + 1" "is_running a' = (is_running a \<and> \<not> stop_during w (awaits a))"
    "output_base_path a' = output_base_path a" "write_attempts a' = write_attempts a"
    using process_with_llm_effect [of w "txt" sp up m t a] by blast
  obtain r' b' where b: "process_with_llm w' txt' sp up m t b = Returned r' b'"
    "requests b' = requests b @ [\<lparr>req_model = m, req_system = sp, req_user = up, req_temperature = t\<rparr>]"
    "awaits b' = awaits b + 1" "is_running b' = (is_running b \<and> \<not> stop_during w' (awaits b))"
    "output_base_path b' = output_base_path b" "write_attempts b' = write_attempts b"
    using process_with_llm_effect [of "w'" "txt'" sp up m t b] by blast
  show ?thesis using a b assms by (simp add: same_control_def)
qed

lemma translation_prompts_chat:
  assumes "str_format w' = str_format w"
  shows "translation_prompts w' ops chunk ctx is_first = translation_prompts w ops chunk ctx is_first"
  by (simp only: translation_prompts_def assms)

lemma translation_loop_same_outcome:
  assumes w': "stop_during w' = stop_during w" "os_splitext w' = os_splitext w"
    "str_format w' = str_format w"
  shows "same_control a b \<Longrightarrow>
         same_outcome (translation_loop w ops total_chunks i chunks parts last_translation a)
                      (translation_loop w' ops total_chunks i chunks parts' last_translation' b)"
proof (induction chunks arbitrary: i parts parts' last_translation last_translation' a b)
  case Nil
  then show ?case by simp
next
  case (Cons c chunks)
  obtain chunk ctx is_first where c: "c = (chunk, ctx, is_first)" by (cases c)
  have run: "is_running a = is_running b" using Cons.prems by (simp add: same_control_def)
  show ?case
  proof (cases "is_running a")
    case False
    with run Cons.prems show ?thesis by (simp add: c)
  next
    case True
    note pr = translation_prompts_chat [OF w'(3), of ops chunk ctx is_first]
    show ?thesis
    proof (cases "translation_prompts w ops chunk ctx is_first")
      case (Inl e)
      with True run pr Cons.prems show ?thesis by (simp add: c)
    next
      case (Inr p)
      obtain sp up where p: "p = (sp, up)" by (cases p)
      obtain r a1 where a1: "process_with_llm w chunk sp up (model_of ops) translation_temperature a = Returned r a1"
        using process_with_llm_returned by blast
      obtain r' b1 where b1: "process_with_llm w' chunk sp up (model_of ops) translation_temperature b = Returned r' b1"
        using process_with_llm_returned by blast
      have "same_control a1 b1"
        using same_control_process_with_llm [OF Cons.prems w'(1), of chunk sp up "model_of ops"
            translation_temperature chunk] a1 b1 by simp
      then have "same_control
          (await_point w (emit (processing_progress (i + 1) total_chunks (translation_phase ops))
             (save_step w (join [10, 10] (parts @ [r])) (progress_step_name ops) a1)))
          (await_point w' (emit (processing_progress (i + 1) total_chunks (translation_phase ops))
             (save_step w' (join [10, 10] (parts' @ [r'])) (progress_step_name ops) b1)))"
        by (intro same_control_await same_control_emit same_control_save_step w')
      from Cons.IH [OF this] True run Inr p pr a1 b1 show ?thesis by (simp add: c)
    qed
  qed
qed

lemma translation_loop_requests:
  "\<exists>k new st'. k \<le> length chunks
      \<and> final_state (translation_loop w ops total_chunks i chunks parts last_translation st) = Some st'
      \<and> requests st' = requests st @ new
      \<and> list_all2 (\<lambda>seg request. translation_request w ops seg = Some request)
            (take k chunks) new"
proof (induction chunks arbitrary: i parts last_translation st)
  case Nil
  then show ?case by simp
next
  case (Cons c chunks)
  obtain chunk ctx is_first where c: "c = (chunk, ctx, is_first)" by (cases c)
  show ?case
  proof (cases "is_running st")
    case False
    then have "final_state (translation_loop w ops total_chunks i (c # chunks) parts last_translation st) = Some st"
      by (simp add: c)
    then show ?thesis by (intro exI [of _ 0] exI [of _ "[]"] exI [of _ st]) simp
  next
    case True
    show ?thesis
    proof (cases "translation_prompts w ops chunk ctx is_first")
      case (Inl e)
      with True have "final_state (translation_loop w ops total_chunks i (c # chunks) parts last_translation st) = Some st"
        by (simp add: c)
      then show ?thesis by (intro exI [of _ 0] exI [of _ "[]"] exI [of _ st]) simp
    next
      case (Inr p)
      obtain sp up where p: "p = (sp, up)" by (cases p)
      let ?req = "\<lparr>req_model = model_of ops, req_system = sp, req_user = up,
                    req_temperature = translation_temperature\<rparr>"
      have tr: "translation_request w ops c = Some ?req"
        using Inr p by (simp add: translation_request_def c)
      obtain r st1 where r: "process_with_llm w chunk sp up (model_of ops) translation_temperature st = Returned r st1"
        and rq: "requests st1 = requests st @ [?req]"
        using process_with_llm_effect [of w chunk sp up "model_of ops" translation_temperature st]
        by blast
      define st2 where "st2 = await_point w
            (emit (processing_progress (i + 1) total_chunks (translation_phase ops))
               (save_step w (join [10, 10] (parts @ [r])) (progress_step_name ops) st1))"
      have rq2: "requests st2 = requests st @ [?req]"
        using rq save_step_control [of w _ _ st1] by (simp add: st2_def await_point_def emit_def)
      have step: "translation_loop w ops total_chunks i (c # chunks) parts last_translation st =
          translation_loop w ops total_chunks (i + 1) chunks (parts @ [r])
            (next_last_translation (overlap_of ops) r) st2"
        using True Inr p r by (simp add: c st2_def)
      obtain k new st' where k: "k \<le> length chunks"
        "final_state (translation_loop w ops total_chunks (i + 1) chunks (parts @ [r])
            (next_last_translation (overlap_of ops) r) st2) = Some st'"
        "requests st' = requests st2 @ new"
        "list_all2 (\<lambda>seg request. translation_request w ops seg = Some request)
            (take k chunks) new"
        using Cons.IH by blast
      show ?thesis
        using k tr rq2 unfolding step
        by (intro exI [of _ "Suc k"] exI [of _ "?req # new"] exI [of _ st']) simp
    qed
  qed
qed

lemma same_outcome_requests:
  "same_outcome r r' \<Longrightarrow>
   map_option requests (final_state r) = map_option requests (final_state r')"
  by (cases r; cases r') (simp_all add: same_control_def)

lemma execute_translation_final:
  "final_state (execute_translation w doc ops st) =
     (case chunk_text doc (get_default (op_chunk_size ops) 2500) (overlap_of ops) of
        None \<Rightarrow> None
      | Some chunks \<Rightarrow>
          if length chunks = 0 then Some st
          else final_state
                 (translation_loop w ops (length chunks) 0 chunks [] []
                    (emit (step_status (translation_status ops (length chunks))) st)))"
  by (simp add: execute_translation_def split: option.splits result.splits)

section \<open>The stage loop\<close>




section \<open>The example runs\<close>

lemmas pipeline_eval =
  process_pipeline_def write_output_def execute_translation_def translation_prompts_def
  process_with_llm_def chat_attempt_def interpret_response_def unwanted_prefixes_def
  placeholder_def save_step_def generate_step_filename_def emit_def await_point_def
  get_default_def prompt_def model_of_def src_lang_of_def target_lang_of_def overlap_of_def
  tab_name_of_def translation_temperature_def translation_phase_def progress_step_name_def
  translation_status_def next_last_translation_def starting_status_def
  translation_artifact_def format_02d_def str_nat.simps format_fields_def
  quiet_world_def failing_world_def stopping_world_def translation_stage_def idle_def
  started_def

lemma example_chunks_nf:
  "chunk_text [65, 97, 46, 32, 66, 98, 46] 4 2 = Some [([65, 97, 46], [], True), ([66, 98, 46], [97, 46], False)]"
  by (simp add: chunker_eval)

lemma world_facts:
  "client_chat failing_world n request = Inl (Exc TimeoutError [])"
  "client_chat garbled_world n request = Inr (DictResponse (Inl (Exc KeyError (py ''message''))))"
  "client_chat quiet_world n request = Inr (DictResponse (Inr (py ''Ahoj.'')))"
  "never_stopped failing_world"
  "always_fails failing_world (Exc TimeoutError [])"
  "is_running started"
  by (simp_all add: failing_world_def garbled_world_def quiet_world_def never_stopped_def
      always_fails_def started_def idle_def)

lemma example_ready:
  "list_all (prompts_ready failing_world translation_stage) example_chunks"
  "list_all (template_ready failing_world (py ''Do: {text}'')) example_chunks"
  by (simp_all add: example_chunks_def prompts_ready_def translation_request_def template_ready_def
      pipeline_eval)



lemma quiet_requests:
  "map_option requests (final_state (execute_translation quiet_world (py ''Aa. Bb.'') translation_stage started))
     = Some [\<lparr>req_model = py ''mistral:latest'', req_system = py ''Translate English to Czech.'',
              req_user = py ''Aa.'', req_temperature = 0.3\<rparr>,
             \<lparr>req_model = py ''mistral:latest'', req_system = py ''Go on in Czech.'',
              req_user = py ''a.|Bb.'', req_temperature = 0.3\<rparr>]"
  by (simp add: pipeline_eval example_chunks_nf dedup_eval)

section \<open>Claims about OllamaProcessor\<close>

text \<open>
  C9. \<open>process_with_llm\<close> returns a string whatever the service does and never raises. An
  exception of the chat call ends in the placeholder of its class; a response whose
  content cannot be read ends in a placeholder as well (a \<open>KeyError\<close> or \<open>AttributeError\<close> is
  raised again as the parse error and caught by the last handler, whose tag is \<open>ERROR\<close>);
  a response that can be read gives its stripped content without the lead-in phrase.
\<close>

theorem process_with_llm_never_raises:
  "(\<exists>result st'. process_with_llm w chunk system_prompt user_prompt model temperature st
        = Returned result st')
   \<and> (client_chat w (length (requests st))
         \<lparr>req_model = model, req_system = system_prompt, req_user = user_prompt,
          req_temperature = temperature\<rparr> = Inl e \<longrightarrow>
       (\<exists>st'. process_with_llm w chunk system_prompt user_prompt model temperature st
                 = Returned (placeholder (failure_tag (class_of e)) chunk) st'))
   \<and> (client_chat w (length (requests st))
         \<lparr>req_model = model, req_system = system_prompt, req_user = user_prompt,
          req_temperature = temperature\<rparr> = Inr response
        \<and> response_content response = Inl e \<longrightarrow>
       (\<exists>st'. process_with_llm w chunk system_prompt user_prompt model temperature st
                 = Returned
                     (placeholder
                        (if class_of e = KeyError \<or> class_of e = AttributeError then py ''ERROR''
                         else failure_tag (class_of e)) chunk) st'))
   \<and> (client_chat w (length (requests st))
         \<lparr>req_model = model, req_system = system_prompt, req_user = user_prompt,
          req_temperature = temperature\<rparr> = Inr response
        \<and> response_content response = Inr content \<longrightarrow>
       (\<exists>st'. process_with_llm w chunk system_prompt user_prompt model temperature st
                 = Returned
                     (remove_prefix unwanted_prefixes (str_lower w (strip content)) (strip content))
                     st'))"
proof (intro conjI impI)
  show "\<exists>result st'. process_with_llm w chunk system_prompt user_prompt model temperature st
        = Returned result st'"
    using process_with_llm_effect by blast
next
  assume "client_chat w (length (requests st))
         \<lparr>req_model = model, req_system = system_prompt, req_user = user_prompt,
          req_temperature = temperature\<rparr> = Inl e"
  then show "\<exists>st'. process_with_llm w chunk system_prompt user_prompt model temperature st
                 = Returned (placeholder (failure_tag (class_of e)) chunk) st'"
    by (simp add: process_with_llm_cases chat_attempt_def Let_def)
next
  assume "client_chat w (length (requests st))
         \<lparr>req_model = model, req_system = system_prompt, req_user = user_prompt,
          req_temperature = temperature\<rparr> = Inr response
        \<and> response_content response = Inl e"
  then show "\<exists>st'. process_with_llm w chunk system_prompt user_prompt model temperature st
                 = Returned
                     (placeholder
                        (if class_of e = KeyError \<or> class_of e = AttributeError then py ''ERROR''
                         else failure_tag (class_of e)) chunk) st'"
    by (simp add: process_with_llm_cases chat_attempt_def Let_def interpret_response_def
        failure_tag_def)
next
  assume "client_chat w (length (requests st))
         \<lparr>req_model = model, req_system = system_prompt, req_user = user_prompt,
          req_temperature = temperature\<rparr> = Inr response
        \<and> response_content response = Inr content"
  then show "\<exists>st'. process_with_llm w chunk system_prompt user_prompt model temperature st
                 = Returned
                     (remove_prefix unwanted_prefixes (str_lower w (strip content)) (strip content))
                     st'"
    by (simp add: process_with_llm_cases chat_attempt_def Let_def interpret_response_def)
qed

theorem process_with_llm_never_raises_witness:
  "client_chat failing_world (length (requests idle))
      \<lparr>req_model = py ''m'', req_system = [], req_user = [], req_temperature = 0.3\<rparr>
     = Inl (Exc TimeoutError [])
   \<and> (\<exists>st'. process_with_llm failing_world (py ''Hello'') [] [] (py ''m'') 0.3 idle
              = Returned (py ''[TIMEOUT ERROR: Hello...]'') st')
   \<and> client_chat garbled_world (length (requests idle))
      \<lparr>req_model = py ''m'', req_system = [], req_user = [], req_temperature = 0.3\<rparr>
     = Inr (DictResponse (Inl (Exc KeyError (py ''message''))))
   \<and> response_content (DictResponse (Inl (Exc KeyError (py ''message''))))
     = Inl (Exc KeyError (py ''message''))
   \<and> (\<exists>st'. process_with_llm garbled_world (py ''Hello'') [] [] (py ''m'') 0.3 idle
              = Returned (py ''[ERROR: Hello...]'') st')
   \<and> client_chat quiet_world (length (requests idle))
      \<lparr>req_model = py ''m'', req_system = [], req_user = [], req_temperature = 0.3\<rparr>
     = Inr (DictResponse (Inr (py ''Ahoj.'')))
   \<and> response_content (DictResponse (Inr (py ''Ahoj.''))) = Inr (py ''Ahoj.'')
   \<and> (\<exists>st'. process_with_llm quiet_world (py ''Hello'') [] [] (py ''m'') 0.3 idle
              = Returned (py ''Ahoj.'') st')"
proof -
  have t1: "placeholder (failure_tag (class_of (Exc TimeoutError []))) (py ''Hello'')
      = py ''[TIMEOUT ERROR: Hello...]''"
    by (simp add: placeholder_def failure_tag_def)
  have t2: "placeholder
       (if class_of (Exc KeyError (py ''message'')) = KeyError
           \<or> class_of (Exc KeyError (py ''message'')) = AttributeError then py ''ERROR''
        else failure_tag (class_of (Exc KeyError (py ''message'')))) (py ''Hello'')
      = py ''[ERROR: Hello...]''"
    by (simp add: placeholder_def)
  have t3: "remove_prefix unwanted_prefixes (str_lower quiet_world (strip (py ''Ahoj.'')))
        (strip (py ''Ahoj.'')) = py ''Ahoj.''"
    by (simp add: unwanted_prefixes_def quiet_world_def ascii_lower_def strip_def isspace_def)
  note a = process_with_llm_never_raises
    [of failing_world "py ''Hello''" "[]" "[]" "py ''m''" "0.3" idle "Exc TimeoutError []"]
  note b = process_with_llm_never_raises
    [of garbled_world "py ''Hello''" "[]" "[]" "py ''m''" "0.3" idle "Exc KeyError (py ''message'')"
      "DictResponse (Inl (Exc KeyError (py ''message'')))"]
  note c = process_with_llm_never_raises
    [of quiet_world "py ''Hello''" "[]" "[]" "py ''m''" "0.3" idle _
      "DictResponse (Inr (py ''Ahoj.''))" "py ''Ahoj.''"]
  show ?thesis
    using a b c unfolding t1 t2 t3 by (simp add: world_facts)
qed

text \<open>
  C5. When the chat call of a chunk fails, or its response cannot be interpreted,
  \<open>process_with_llm\<close> returns the bracketed placeholder that carries the tag of the failure
  and the first 100 characters of the chunk, and emits exactly one error signal. The chunk
  loops of both executors go on after it: while nobody presses stop and the prompts can
  be formatted, every chunk gets its request and its part whatever the service replies,
  and a service that fails on every request yields one placeholder per chunk.
\<close>

theorem generation_failure_recovered:
  "(client_chat w (length (requests st))
       \<lparr>req_model = model, req_system = system_prompt, req_user = user_prompt,
        req_temperature = temperature\<rparr> = Inl e \<longrightarrow>
      (\<exists>st' message.
          process_with_llm w chunk system_prompt user_prompt model temperature st
            = Returned (py ''['' @ failure_tag (class_of e) @ py '': '' @ take 100 chunk @ py ''...]'') st'
          \<and> emitted st' = emitted st @ [processing_error message]))
   \<and> (client_chat w (length (requests st))
         \<lparr>req_model = model, req_system = system_prompt, req_user = user_prompt,
          req_temperature = temperature\<rparr> = Inr response
        \<and> interpret_response response = Inl e \<longrightarrow>
      (\<exists>st' message.
          process_with_llm w chunk system_prompt user_prompt model temperature st
            = Returned (py ''['' @ failure_tag (class_of e) @ py '': '' @ take 100 chunk @ py ''...]'') st'
          \<and> emitted st' = emitted st @ [processing_error message]))
   \<and> (never_stopped w \<and> is_running st \<and> list_all (prompts_ready w op_settings) chunks \<longrightarrow>
      (\<exists>parts st'.
          translation_loop w op_settings total_chunks i chunks earlier last_translation st
            = Returned parts st'
          \<and> length parts = length earlier + length chunks
          \<and> length (requests st') = length (requests st) + length chunks
          \<and> (always_fails w e \<longrightarrow>
                parts = earlier @ map (\<lambda>seg. placeholder (failure_tag (class_of e)) (fst seg)) chunks)))
   \<and> (never_stopped w \<and> is_running st \<and> list_all (template_ready w user_prompt_template) chunks \<longrightarrow>
      (\<exists>parts st'.
          combined_loop w op_settings system_prompt user_prompt_template task_count total_chunks i
              chunks earlier st
            = Returned parts st'
          \<and> length parts = length earlier + length chunks
          \<and> length (requests st') = length (requests st) + length chunks
          \<and> (always_fails w e \<longrightarrow>
                parts = earlier @ map (\<lambda>seg. placeholder (failure_tag (class_of e)) (fst seg)) chunks)))"
proof (intro conjI impI)
  assume "client_chat w (length (requests st))
       \<lparr>req_model = model, req_system = system_prompt, req_user = user_prompt,
        req_temperature = temperature\<rparr> = Inl e"
  then have "fst (chat_attempt w
       \<lparr>req_model = model, req_system = system_prompt, req_user = user_prompt,
        req_temperature = temperature\<rparr> st) = Inl e"
    by (simp add: chat_attempt_def Let_def)
  then show "\<exists>st' message.
          process_with_llm w chunk system_prompt user_prompt model temperature st
            = Returned (py ''['' @ failure_tag (class_of e) @ py '': '' @ take 100 chunk @ py ''...]'') st'
          \<and> emitted st' = emitted st @ [processing_error message]"
    by (rule process_with_llm_failure)
next
  assume "client_chat w (length (requests st))
         \<lparr>req_model = model, req_system = system_prompt, req_user = user_prompt,
          req_temperature = temperature\<rparr> = Inr response
        \<and> interpret_response response = Inl e"
  then have "fst (chat_attempt w
       \<lparr>req_model = model, req_system = system_prompt, req_user = user_prompt,
        req_temperature = temperature\<rparr> st) = Inl e"
    by (simp add: chat_attempt_def Let_def)
  then show "\<exists>st' message.
          process_with_llm w chunk system_prompt user_prompt model temperature st
            = Returned (py ''['' @ failure_tag (class_of e) @ py '': '' @ take 100 chunk @ py ''...]'') st'
          \<and> emitted st' = emitted st @ [processing_error message]"
    by (rule process_with_llm_failure)
next
  assume "never_stopped w \<and> is_running st \<and> list_all (prompts_ready w op_settings) chunks"
  then show "\<exists>parts st'.
          translation_loop w op_settings total_chunks i chunks earlier last_translation st
            = Returned parts st'
          \<and> length parts = length earlier + length chunks
          \<and> length (requests st') = length (requests st) + length chunks
          \<and> (always_fails w e \<longrightarrow>
                parts = earlier @ map (\<lambda>seg. placeholder (failure_tag (class_of e)) (fst seg)) chunks)"
    using translation_loop_all [of w st op_settings chunks total_chunks i earlier last_translation e]
    by blast
next
  assume "never_stopped w \<and> is_running st \<and> list_all (template_ready w user_prompt_template) chunks"
  then show "\<exists>parts st'.
          combined_loop w op_settings system_prompt user_prompt_template task_count total_chunks i
              chunks earlier st
            = Returned parts st'
          \<and> length parts = length earlier + length chunks
          \<and> length (requests st') = length (requests st) + length chunks
          \<and> (always_fails w e \<longrightarrow>
                parts = earlier @ map (\<lambda>seg. placeholder (failure_tag (class_of e)) (fst seg)) chunks)"
    using combined_loop_all [of w st user_prompt_template chunks op_settings system_prompt
        task_count total_chunks i earlier e]
    by blast
qed

theorem generation_failure_recovered_witness:
  "client_chat failing_world (length (requests idle))
      \<lparr>req_model = py ''m'', req_system = [], req_user = [], req_temperature = 0.3\<rparr>
     = Inl (Exc TimeoutError [])
   \<and> (\<exists>st' message.
          process_with_llm failing_world (py ''Hello'') [] [] (py ''m'') 0.3 idle
            = Returned (py ''[TIMEOUT ERROR: Hello...]'') st'
          \<and> emitted st' = emitted idle @ [processing_error message])
   \<and> client_chat garbled_world (length (requests idle))
      \<lparr>req_model = py ''m'', req_system = [], req_user = [], req_temperature = 0.3\<rparr>
     = Inr (DictResponse (Inl (Exc KeyError (py ''message''))))
   \<and> interpret_response (DictResponse (Inl (Exc KeyError (py ''message''))))
     = Inl (Exc (OtherException (py ''Exception''))
              (py ''Cannot parse Ollama response: <class 'dict'>. Error: message''))
   \<and> (\<exists>st' message.
          process_with_llm garbled_world (py ''Hello'') [] [] (py ''m'') 0.3 idle
            = Returned (py ''[ERROR: Hello...]'') st'
          \<and> emitted st' = emitted idle @ [processing_error message])
   \<and> never_stopped failing_world \<and> is_running started
   \<and> always_fails failing_world (Exc TimeoutError [])
   \<and> list_all (prompts_ready failing_world translation_stage) example_chunks
   \<and> (\<exists>st'. translation_loop failing_world translation_stage 2 0 example_chunks [] [] started
              = Returned [py ''[TIMEOUT ERROR: Aa....]'', py ''[TIMEOUT ERROR: Bb....]''] st'
            \<and> length (requests st') = length (requests started) + 2)
   \<and> list_all (template_ready failing_world (py ''Do: {text}'')) example_chunks
   \<and> (\<exists>st'. combined_loop failing_world translation_stage [] (py ''Do: {text}'') 1 2 0
              example_chunks [] started
              = Returned [py ''[TIMEOUT ERROR: Aa....]'', py ''[TIMEOUT ERROR: Bb....]''] st'
            \<and> length (requests st') = length (requests started) + 2)"
proof -
  have t1: "py ''['' @ failure_tag (class_of (Exc TimeoutError [])) @ py '': '' @ take 100 (py ''Hello'')
        @ py ''...]'' = py ''[TIMEOUT ERROR: Hello...]''"
    by (simp add: failure_tag_def)
  have t2: "[] @ map (\<lambda>seg. placeholder (failure_tag (class_of (Exc TimeoutError []))) (fst seg))
        example_chunks = [py ''[TIMEOUT ERROR: Aa....]'', py ''[TIMEOUT ERROR: Bb....]'']"
    by (simp add: example_chunks_def placeholder_def failure_tag_def)
  have t3: "py ''['' @ failure_tag (class_of (Exc (OtherException (py ''Exception''))
              (py ''Cannot parse Ollama response: <class 'dict'>. Error: message'')))
        @ py '': '' @ take 100 (py ''Hello'') @ py ''...]'' = py ''[ERROR: Hello...]''"
    by (simp add: failure_tag_def)
  have shape: "interpret_response (DictResponse (Inl (Exc KeyError (py ''message''))))
     = Inl (Exc (OtherException (py ''Exception''))
              (py ''Cannot parse Ollama response: <class 'dict'>. Error: message''))"
    by (simp add: interpret_response_def)
  have l: "length example_chunks = 2" by (simp add: example_chunks_def)
  note one = generation_failure_recovered
    [where w = failing_world and st = idle and model = "py ''m''" and system_prompt = "[]"
       and user_prompt = "[]" and temperature = "0.3" and e = "Exc TimeoutError []"
       and chunk = "py ''Hello''"]
  note two = generation_failure_recovered
    [where w = garbled_world and st = idle and model = "py ''m''" and system_prompt = "[]"
       and user_prompt = "[]" and temperature = "0.3"
       and response = "DictResponse (Inl (Exc KeyError (py ''message'')))"
       and e = "Exc (OtherException (py ''Exception''))
                  (py ''Cannot parse Ollama response: <class 'dict'>. Error: message'')"
       and chunk = "py ''Hello''"]
  note all = generation_failure_recovered
    [where w = failing_world and st = started and e = "Exc TimeoutError []"
       and op_settings = translation_stage and chunks = example_chunks and total_chunks = 2
       and i = 0 and earlier = "[]" and last_translation = "[]" and system_prompt = "[]"
       and user_prompt_template = "py ''Do: {text}''" and task_count = 1]
  have p1: "\<exists>st' message.
          process_with_llm failing_world (py ''Hello'') [] [] (py ''m'') 0.3 idle
            = Returned (py ''[TIMEOUT ERROR: Hello...]'') st'
          \<and> emitted st' = emitted idle @ [processing_error message]"
    using one world_facts(1) unfolding t1 by blast
  have p2: "\<exists>st' message.
          process_with_llm garbled_world (py ''Hello'') [] [] (py ''m'') 0.3 idle
            = Returned (py ''[ERROR: Hello...]'') st'
          \<and> emitted st' = emitted idle @ [processing_error message]"
    using two world_facts(2) shape unfolding t3 by blast
  have p3: "\<exists>st'. translation_loop failing_world translation_stage 2 0 example_chunks [] [] started
              = Returned [py ''[TIMEOUT ERROR: Aa....]'', py ''[TIMEOUT ERROR: Bb....]''] st'
            \<and> length (requests st') = length (requests started) + 2"
    using all world_facts(4-6) example_ready(1) unfolding t2 l by blast
  have p4: "\<exists>st'. combined_loop failing_world translation_stage [] (py ''Do: {text}'') 1 2 0
              example_chunks [] started
              = Returned [py ''[TIMEOUT ERROR: Aa....]'', py ''[TIMEOUT ERROR: Bb....]''] st'
            \<and> length (requests st') = length (requests started) + 2"
    using all world_facts(4-6) example_ready(2) unfolding t2 l by blast
  show ?thesis
    using p1 p2 p3 p4 shape world_facts(1,2,4-6) example_ready by blast
qed

text \<open>
  C10. The requests that \<open>execute_translation\<close> sends do not depend on what the service
  replies: a run with any other replies sends the same requests. They are the requests
  built from the first segments of \<open>chunk_text\<close> on the source document, each from its own
  chunk, context and first-flag, and building them does not consult the service.
\<close>

theorem translation_requests_independent:
  "map_option requests (final_state (execute_translation w txt op_settings st))
     = map_option requests
         (final_state (execute_translation (w\<lparr>client_chat := replies\<rparr>) txt op_settings st))
   \<and> translation_request (w\<lparr>client_chat := replies\<rparr>) op_settings seg
     = translation_request w op_settings seg
   \<and> (case chunk_text txt (get_default (op_chunk_size op_settings) 2500) (overlap_of op_settings) of
        None \<Rightarrow> execute_translation w txt op_settings st = Diverged
      | Some chunks \<Rightarrow>
          (\<exists>k new st'.
              k \<le> length chunks
              \<and> final_state (execute_translation w txt op_settings st) = Some st'
              \<and> requests st' = requests st @ new
              \<and> list_all2 (\<lambda>seg request. translation_request w op_settings seg = Some request)
                    (take k chunks) new))"
proof (intro conjI)
  let ?w' = "w\<lparr>client_chat := replies\<rparr>"
  have w': "stop_during ?w' = stop_during w" "os_splitext ?w' = os_splitext w"
    "str_format ?w' = str_format w"
    by simp_all
  show "map_option requests (final_state (execute_translation w txt op_settings st))
     = map_option requests (final_state (execute_translation ?w' txt op_settings st))"
  proof (cases "chunk_text txt (get_default (op_chunk_size op_settings) 2500) (overlap_of op_settings)")
    case None
    then show ?thesis by (simp add: execute_translation_final)
  next
    case (Some chunks)
    let ?st = "emit (step_status (translation_status op_settings (length chunks))) st"
    have "same_outcome
        (translation_loop w op_settings (length chunks) 0 chunks [] [] ?st)
        (translation_loop ?w' op_settings (length chunks) 0 chunks [] [] ?st)"
      by (rule translation_loop_same_outcome [OF w' same_control_refl])
    then show ?thesis
      using Some by (simp add: execute_translation_final same_outcome_requests)
  qed
  show "translation_request ?w' op_settings seg = translation_request w op_settings seg"
    by (simp add: translation_request_def translation_prompts_chat [OF w'(3)] split: prod.splits)
  show "case chunk_text txt (get_default (op_chunk_size op_settings) 2500) (overlap_of op_settings) of
        None \<Rightarrow> execute_translation w txt op_settings st = Diverged
      | Some chunks \<Rightarrow>
          (\<exists>k new st'.
              k \<le> length chunks
              \<and> final_state (execute_translation w txt op_settings st) = Some st'
              \<and> requests st' = requests st @ new
              \<and> list_all2 (\<lambda>seg request. translation_request w op_settings seg = Some request)
                    (take k chunks) new)"
  proof (cases "chunk_text txt (get_default (op_chunk_size op_settings) 2500) (overlap_of op_settings)")
    case None
    then show ?thesis by (simp add: execute_translation_def)
  next
    case (Some chunks)
    show ?thesis
    proof (cases "length chunks = 0")
      case True
      with Some have "final_state (execute_translation w txt op_settings st) = Some st"
        by (simp add: execute_translation_final)
      then have "\<exists>k new st'.
              k \<le> length chunks
              \<and> final_state (execute_translation w txt op_settings st) = Some st'
              \<and> requests st' = requests st @ new
              \<and> list_all2 (\<lambda>seg request. translation_request w op_settings seg = Some request)
                    (take k chunks) new"
        by (intro exI [of _ 0] exI [of _ "[]"] exI [of _ st]) simp
      with Some show ?thesis by simp
    next
      case False
      let ?st = "emit (step_status (translation_status op_settings (length chunks))) st"
      obtain k new st' where k: "k \<le> length chunks"
        "final_state (translation_loop w op_settings (length chunks) 0 chunks [] [] ?st) = Some st'"
        "requests st' = requests ?st @ new"
        "list_all2 (\<lambda>seg request. translation_request w op_settings seg = Some request)
            (take k chunks) new"
        using translation_loop_requests [of chunks w op_settings "length chunks" 0 "[]" "[]" ?st]
        by blast
      have "final_state (execute_translation w txt op_settings st) = Some st'"
        using Some False k(2) by (simp add: execute_translation_final)
      moreover have "requests st' = requests st @ new"
        using k(3) by (simp add: emit_def)
      ultimately have "\<exists>k new st'.
              k \<le> length chunks
              \<and> final_state (execute_translation w txt op_settings st) = Some st'
              \<and> requests st' = requests st @ new
              \<and> list_all2 (\<lambda>seg request. translation_request w op_settings seg = Some request)
                    (take k chunks) new"
        using k(1,4) by blast
      with Some show ?thesis by simp
    qed
  qed
qed

theorem translation_requests_independent_witness:
  "map_option requests
     (final_state (execute_translation (quiet_world\<lparr>client_chat := client_chat failing_world\<rparr>)
                     (py ''Aa. Bb.'') translation_stage started))
     = Some [\<lparr>req_model = py ''mistral:latest'', req_system = py ''Translate English to Czech.'',
              req_user = py ''Aa.'', req_temperature = 0.3\<rparr>,
             \<lparr>req_model = py ''mistral:latest'', req_system = py ''Go on in Czech.'',
              req_user = py ''a.|Bb.'', req_temperature = 0.3\<rparr>]"
  using translation_requests_independent
    [of quiet_world "py ''Aa. Bb.''" translation_stage started "client_chat failing_world"]
  unfolding quiet_requests by simp




end
